theory Spec2Isabelle
  imports Main "HOL-Library.Word"
begin

unbundle bit_operations_syntax

section \<open>Container codec (mozlz4/mozlz4.go)\<close>

type_synonym byte = "8 word"

text \<open>
  The LZ4 block functions come from the external library \<^verbatim>\<open>github.com/pierrec/lz4/v4\<close>.
  They are a parameter of the model. \<open>CompressBlock src n\<close> and \<open>UncompressBlock src n\<close>
  stand for a call with a destination buffer of \<open>n\<close> bytes: \<open>None\<close> is the library's
  error return, \<open>Some out\<close> the written prefix \<open>dst[:k]\<close> of the buffer.
\<close>

record lz4 =
  CompressBlockBound :: "nat \<Rightarrow> nat"
  CompressBlock :: "byte list \<Rightarrow> nat \<Rightarrow> byte list option"
  UncompressBlock :: "byte list \<Rightarrow> nat \<Rightarrow> byte list option"

datatype codec_error =
    DataTooShort nat
  | InvalidHeader
  | LZ4DecompressionFailed
  | LZ4CompressionFailed
  | SliceBoundsOutOfRange

text \<open>\<^verbatim>\<open>headerMagic = "mozLz40\x00"\<close>, as bytes.\<close>

definition headerMagic :: "byte list" where
  "headerMagic = [0x6D, 0x6F, 0x7A, 0x4C, 0x7A, 0x34, 0x30, 0x00]"

definition headerSize :: nat where
  "headerSize = 8"

definition sizeBytes :: nat where
  "sizeBytes = 4"

text \<open>\<^verbatim>\<open>binary.LittleEndian.PutUint32\<close> and \<^verbatim>\<open>binary.LittleEndian.Uint32\<close>.\<close>

definition PutUint32 :: "32 word \<Rightarrow> byte list" where
  "PutUint32 v = [ucast v, ucast (drop_bit 8 v), ucast (drop_bit 16 v), ucast (drop_bit 24 v)]"

definition Uint32 :: "byte list \<Rightarrow> 32 word" where
  "Uint32 b = ucast (b ! 0) OR push_bit 8 (ucast (b ! 1)) OR push_bit 16 (ucast (b ! 2))
               OR push_bit 24 (ucast (b ! 3))"

text \<open>
  \<open>Decompress\<close>: the length and header checks, the size field, then the block call on a
  buffer of \<open>uncompressedSize\<close> bytes; \<^verbatim>\<open>decompressed[:n]\<close> panics when \<open>n\<close> exceeds the
  buffer.
\<close>

definition Decompress :: "lz4 \<Rightarrow> byte list \<Rightarrow> codec_error + byte list" where
  "Decompress lib data =
     (if length data < headerSize + sizeBytes then Inl (DataTooShort (length data))
      else if take headerSize data \<noteq> headerMagic then Inl InvalidHeader
      else
        let uncompressedSize = Uint32 (take sizeBytes (drop headerSize data));
            compressedData = drop (headerSize + sizeBytes) data
        in case UncompressBlock lib compressedData (unat uncompressedSize) of
             None \<Rightarrow> Inl LZ4DecompressionFailed
           | Some out \<Rightarrow>
               if length out \<le> unat uncompressedSize then Inr out
               else Inl SliceBoundsOutOfRange)"

text \<open>
  \<open>Compress\<close>: the block call on a buffer of \<open>CompressBlockBound (len data)\<close> bytes, then
  header, \<^verbatim>\<open>uint32(len(data))\<close> in little-endian order, and the block. The writes to the
  \<^verbatim>\<open>bytes.Buffer\<close> never fail.
\<close>

definition Compress :: "lz4 \<Rightarrow> byte list \<Rightarrow> codec_error + byte list" where
  "Compress lib data =
     (let maxCompressed = CompressBlockBound lib (length data)
      in case CompressBlock lib data maxCompressed of
           None \<Rightarrow> Inl LZ4CompressionFailed
         | Some compressed \<Rightarrow>
             if length compressed \<le> maxCompressed
             then Inr (headerMagic @ PutUint32 (word_of_nat (length data)) @ compressed)
             else Inl SliceBoundsOutOfRange)"

text \<open>
  A stand-in for the library at concrete inputs: a block codec that stores the payload
  verbatim, with the library's bound \<open>n + n / 255 + 16\<close>, and that fails when the
  destination buffer is too small.
\<close>

definition stored_lz4 :: lz4 where
  "stored_lz4 =
     \<lparr> CompressBlockBound = (\<lambda>n. n + n div 255 + 16),
       CompressBlock = (\<lambda>src n. if length src \<le> n then Some src else None),
       UncompressBlock = (\<lambda>src n. if length src \<le> n then Some src else None) \<rparr>"

section \<open>Container registry (types/zen.go, importer/importer.go)\<close>

text \<open>
  \<open>ContainerIdentity\<close>: \<open>UserContextID\<close> is a pointer (\<open>None\<close> is nil). Go's \<open>int\<close> is
  modelled as \<open>int\<close>; where the code adds, the 64-bit wrap-around is written out
  (\<open>int64_wrap\<close> below).
\<close>

record ContainerIdentity =
  UserContextID :: "int option"
  Name :: string
  Icon :: string
  Color :: string
  Public :: bool
  L10nID :: string
  AccessKey :: string

record ContainersData =
  Version :: int
  LastUserContextID :: "int option"
  Identities :: "ContainerIdentity list"

definition GetUserContextID :: "ContainerIdentity \<Rightarrow> int" where
  "GetUserContextID c = (case UserContextID c of None \<Rightarrow> 0 | Some i \<Rightarrow> i)"

definition HasValidUserContextID :: "ContainerIdentity \<Rightarrow> bool" where
  "HasValidUserContextID c = (case UserContextID c of None \<Rightarrow> False | Some i \<Rightarrow> i > 0)"

datatype import_error =
    NoMainContainer
  | NilPointerDereference
  | WriteContainersFailed
  | WriteSessionFailed
  | CodecError codec_error

text \<open>
  \<open>writeContainers\<close>: the clean-up loop, then marshalling and the file write.
  \<open>MarshalIndent\<close> cannot fail on this type; \<open>write_ok\<close> is the outcome of
  \<^verbatim>\<open>os.WriteFile\<close>. The result is the registry as persisted.
\<close>

fun cleanIdentities :: "ContainerIdentity list \<Rightarrow> ContainerIdentity list" where
  "cleanIdentities [] = []"
| "cleanIdentities (container # rest) =
     (if \<not> Public container then container # cleanIdentities rest
      else if HasValidUserContextID container then container # cleanIdentities rest
      else cleanIdentities rest)"

definition writeContainers :: "bool \<Rightarrow> ContainersData \<Rightarrow> import_error + ContainersData" where
  "writeContainers write_ok data =
     (let data' = data\<lparr>Identities := cleanIdentities (Identities data)\<rparr>
      in if write_ok then Inr data' else Inl WriteContainersFailed)"

section \<open>Source data (types/arc.go)\<close>

record ArcTab =
  SavedTitle :: string
  SavedURL :: string

text \<open>\<open>ContainerType\<close> is an \<^verbatim>\<open>interface{}\<close>: \<open>None\<close> is nil, any other JSON value is kept as text.\<close>

record ArcItemContainer =
  ContainerType :: "string option"

record ArcItemData =
  Tab :: "ArcTab option"
  ItemContainer :: "ArcItemContainer option"

record ArcItem =
  ID :: string
  Title :: string
  ParentID :: string
  ChildrenIds :: "string list"
  Data :: "ArcItemData option"

record ArcIconType =
  Icon :: string

record ArcCustomInfo =
  IconType :: "ArcIconType option"

text \<open>
  Modelled from the spec: the \<open>Profile\<close> field of \<open>ArcSpace\<close> and its types are not declared
  in the given \<^verbatim>\<open>types/arc.go\<close>. The spec gives a Space "a profile reference (default, or
  a named custom profile)"; the shape below is the one \<open>getProfileName\<close> reads: pointers
  \<open>Default\<close>, \<open>Custom\<close> and \<open>Custom.Data\<close>, and the string \<open>DirectoryBasename\<close>.
\<close>

record ArcProfileData =
  DirectoryBasename :: string

record ArcCustomProfile =
  Data :: "ArcProfileData option"

record ArcProfile =
  Default :: "unit option"
  Custom :: "ArcCustomProfile option"

text \<open>An entry of \<open>ContainerIDs\<close> (\<^verbatim>\<open>[]interface{}\<close>): a string, or some other JSON value.\<close>

datatype RawID = RawString string | RawOther

record ArcSpace =
  ID :: string
  Title :: string
  Icon :: string
  Color :: string
  ContainerIDs :: "RawID list option"
  CustomInfo :: "ArcCustomInfo option"
  Profile :: "ArcProfile option"

text \<open>
  An entry of the raw \<open>spaces\<close> and \<open>items\<close> arrays: not a JSON object, or an object.
  \<open>RawObject None\<close> is an object without an \<open>id\<close> key or one that does not decode into
  the struct; \<open>RawObject (Some x)\<close> decodes to \<open>x\<close>.
\<close>

datatype 'a Raw = RawNonObject | RawObject "'a option"

record ArcContainer =
  Spaces :: "ArcSpace Raw list"
  Items :: "ArcItem Raw list"

record ArcSidebar =
  Containers :: "ArcContainer option list"

record ArcData =
  Sidebar :: "ArcSidebar option"

section \<open>Target data (types/zen.go)\<close>

text \<open>
  \<open>ZenTheme\<close>: the fields the importer fills with the same constant on every space it
  creates (\<open>GradientColors\<close> empty, \<open>Opacity\<close> 0.5, a \<^verbatim>\<open>float64\<close>, \<open>Rotation\<close> and
  \<open>Texture\<close> nil) are left out.
\<close>

record ZenTheme =
  Type :: string

record ZenSpace =
  UUID :: string
  Name :: string
  Icon :: string
  ContainerTabID :: int
  Position :: int
  Theme :: ZenTheme
  HasCollapsedPinnedTabs :: bool

record ZenTabEntry =
  URL :: string
  Title :: string
  TriggeringPrincipalBase64 :: string

text \<open>A JSON value that is an int or a string (\<open>zenDefaultUserContextId\<close>), or null.\<close>

datatype JsonID = JsonNull | JsonInt int | JsonString string

text \<open>The value of \<open>_zenPinnedInitialState\<close>: the entry and the image.\<close>

record PinnedInitialState =
  entry :: ZenTabEntry
  image :: "string option"

text \<open>
  \<open>ZenTab\<close>. The fields that the importer sets to the same constant on every tab it
  creates and never reads (\<open>ZenPinnedIcon\<close>, \<open>ZenHasStaticIcon\<close>, \<open>ZenGlanceID\<close>,
  \<open>ZenIsGlance\<close>, \<open>SearchMode\<close>, \<open>Attributes\<close>, \<open>UserTypedValue\<close>, \<open>UserTypedClear\<close>) are
  left out. \<open>GroupID\<close> is the empty string when absent.
\<close>

record ZenTab =
  Entries :: "ZenTabEntry list"
  LastAccessed :: int
  Pinned :: bool
  Hidden :: bool
  ZenWorkspace :: string
  ZenSyncID :: string
  ZenEssential :: bool
  ZenDefaultUserContextID :: JsonID
  ZenIsEmpty :: bool
  ZenStaticLabel :: string
  ZenPinnedInitialState :: "PinnedInitialState option"
  UserContextID :: int
  Index :: int
  Image :: "string option"
  GroupID :: string

text \<open>\<open>PrevSiblingInfo\<close> is an \<^verbatim>\<open>interface{}\<close>: nil, or the object \<^verbatim>\<open>{"type": t, "id": i}\<close>.\<close>

datatype PrevSibling = PrevSiblingNil | PrevSiblingRef string string

record ZenFolder =
  Pinned :: bool
  SplitViewGroup :: bool
  ID :: string
  Name :: string
  Collapsed :: bool
  SaveOnWindowClose :: bool
  ParentID :: string
  PrevSiblingInfo :: PrevSibling
  EmptyTabIDs :: "string list"
  UserIcon :: string
  WorkspaceID :: string

record ZenGroup =
  ID :: string
  Name :: string
  Color :: "string option"
  Collapsed :: bool
  Pinned :: bool
  Essential :: bool
  SplitView :: bool

text \<open>\<open>SplitViewData\<close> and \<open>LastCollected\<close> are carried through unchanged and left out.\<close>

record ZenSession =
  Spaces :: "ZenSpace list"
  Tabs :: "ZenTab list"
  Folders :: "ZenFolder list"
  Groups :: "ZenGroup list"

section \<open>The run's environment\<close>

text \<open>
  What a run takes from outside the program: the values of \<^verbatim>\<open>uuid.New().String()\<close> in call
  order, the reading of \<^verbatim>\<open>time.Now().UnixMilli()\<close>, the order in which Go's \<^verbatim>\<open>range\<close>
  visits the keys of the \<open>profiles\<close> map (unspecified by the language), and the favicon
  fetcher's answer for a URL.

  Modelled from the spec: the package \<^verbatim>\<open>mappings\<close> is not among the given sources; the spec
  describes \<open>MapIcon\<close> and \<open>MapColor\<close> as "pure total functions, default fallback on
  unknown/empty input, no side effects". Its three functions are parameters.
\<close>

record Runtime =
  uuidNew :: "nat \<Rightarrow> string"
  timeNow :: int
  rangeOrder :: "string list"
  FetchAsDataURL :: "string \<Rightarrow> string"
  MapArcIconToSvg :: "string \<Rightarrow> string"
  MapArcIconToContainerIcon :: "string \<Rightarrow> string"
  MapArcColorToZen :: "string \<Rightarrow> string"

text \<open>Go's \<open>int\<close> is 64 bits wide on every platform the tool is built for; \<open>+\<close> wraps.\<close>

definition int64_wrap :: "int \<Rightarrow> int" where
  "int64_wrap x = (x + 2 ^ 63) mod 2 ^ 64 - 2 ^ 63"

text \<open>\<^verbatim>\<open>%d\<close> of \<^verbatim>\<open>fmt.Sprintf\<close>: decimal digits, with a minus sign for a negative number.\<close>

definition digit :: "nat \<Rightarrow> char" where
  "digit n = ''0123456789'' ! n"

fun digits :: "nat \<Rightarrow> string" where
  "digits n = (if n < 10 then [digit n] else digits (n div 10) @ [digit (n mod 10)])"

declare digits.simps [simp del]

definition Sprintf_d :: "int \<Rightarrow> string" where
  "Sprintf_d i = (if i < 0 then CHR ''-'' # digits (nat (- i)) else digits (nat i))"

text \<open>\<^verbatim>\<open>fmt.Sprintf("{%s}", uuid.New().String())\<close>, for the \<open>k\<close>-th UUID of the run.\<close>

definition newUUID :: "Runtime \<Rightarrow> nat \<Rightarrow> string" where
  "newUUID rt k = ''{'' @ uuidNew rt k @ ''}''"

text \<open>A Go map from strings to strings read at a key: the empty string when absent.\<close>

definition lookupString :: "(string \<rightharpoonup> string) \<Rightarrow> string \<Rightarrow> string" where
  "lookupString m k = (case m k of None \<Rightarrow> [] | Some v \<Rightarrow> v)"

section \<open>Helpers (importer/helpers.go)\<close>

fun parseRaw :: "'a Raw list \<Rightarrow> 'a list" where
  "parseRaw [] = []"
| "parseRaw (RawNonObject # rest) = parseRaw rest"
| "parseRaw (RawObject None # rest) = parseRaw rest"
| "parseRaw (RawObject (Some x) # rest) = x # parseRaw rest"

definition parseArcSpaces :: "ArcSpace Raw list \<Rightarrow> ArcSpace list" where
  "parseArcSpaces rawSpaces = parseRaw rawSpaces"

definition parseArcItems :: "ArcItem Raw list \<Rightarrow> ArcItem list" where
  "parseArcItems rawItems = parseRaw rawItems"

definition maxUint32 :: int where
  "maxUint32 = 4294967295"

fun maxContainerID :: "ContainerIdentity list \<Rightarrow> int \<Rightarrow> int" where
  "maxContainerID [] maxID = maxID"
| "maxContainerID (container # rest) maxID =
     (let id = GetUserContextID container
      in if id \<noteq> maxUint32 \<and> id > maxID then maxContainerID rest id
         else maxContainerID rest maxID)"

definition calculateNextContainerID :: "ContainersData \<Rightarrow> int" where
  "calculateNextContainerID containersData =
     int64_wrap
       (maxContainerID (Identities containersData)
          (case LastUserContextID containersData of None \<Rightarrow> 0 | Some l \<Rightarrow> l) + 1)"

fun findSpaceByName :: "ZenSpace list \<Rightarrow> string \<Rightarrow> ZenSpace option" where
  "findSpaceByName [] name = None"
| "findSpaceByName (s # rest) name =
     (if ZenSpace.Name s = name then Some s else findSpaceByName rest name)"

fun findContainerByName :: "ContainerIdentity list \<Rightarrow> string \<Rightarrow> ContainerIdentity option" where
  "findContainerByName [] name = None"
| "findContainerByName (c # rest) name =
     (if ContainerIdentity.Name c = name \<and> HasValidUserContextID c then Some c
      else findContainerByName rest name)"

fun filterTabs :: "ZenTab list \<Rightarrow> string \<Rightarrow> ZenTab list" where
  "filterTabs [] workspaceUUID = []"
| "filterTabs (tab # rest) workspaceUUID =
     (if ZenWorkspace tab \<noteq> workspaceUUID \<or> \<not> ZenTab.Pinned tab
      then tab # filterTabs rest workspaceUUID
      else filterTabs rest workspaceUUID)"

fun filterFolders :: "ZenFolder list \<Rightarrow> string \<Rightarrow> ZenFolder list" where
  "filterFolders [] workspaceID = []"
| "filterFolders (folder # rest) workspaceID =
     (if WorkspaceID folder \<noteq> workspaceID then folder # filterFolders rest workspaceID
      else filterFolders rest workspaceID)"

definition getProfileName :: "ArcSpace \<Rightarrow> string" where
  "getProfileName space =
     (case Profile space of
        None \<Rightarrow> ''default''
      | Some p \<Rightarrow>
          if Default p \<noteq> None then ''default''
          else (case Custom p of
                  None \<Rightarrow> ''default''
                | Some c \<Rightarrow>
                    (case ArcCustomProfile.Data c of
                       None \<Rightarrow> ''default''
                     | Some d \<Rightarrow> DirectoryBasename d)))"

record ProfileInfo =
  Name :: string
  DisplayName :: string
  ContainerID :: int
  Icon :: string
  Color :: string

definition containerColors :: "string list" where
  "containerColors =
     [''blue'', ''turquoise'', ''green'', ''yellow'', ''orange'', ''red'', ''pink'', ''purple'']"

text \<open>
  The icon of a space: the custom icon when there is one and it is not empty, else the
  flat field. The source has these lines twice, in \<open>collectUniqueProfiles\<close> and in
  \<open>doImport\<close>.
\<close>

definition spaceIcon :: "ArcSpace \<Rightarrow> string" where
  "spaceIcon space =
     (let icon = (case CustomInfo space of
                    None \<Rightarrow> []
                  | Some ci \<Rightarrow> (case IconType ci of None \<Rightarrow> [] | Some it \<Rightarrow> ArcIconType.Icon it))
      in if icon = [] then ArcSpace.Icon space else icon)"

text \<open>
  The \<open>profiles\<close> map, kept as an association list in insertion order, with one entry per
  key. \<open>collectUniqueProfiles\<close> records the first space of each profile.
\<close>

type_synonym Profiles = "(string \<times> ProfileInfo) list"

fun collectUniqueProfiles_loop :: "ArcSpace list \<Rightarrow> Profiles \<Rightarrow> nat \<Rightarrow> Profiles" where
  "collectUniqueProfiles_loop [] profiles colorIndex = profiles"
| "collectUniqueProfiles_loop (space # rest) profiles colorIndex =
     (let profileName = getProfileName space
      in if map_of profiles profileName \<noteq> None
         then collectUniqueProfiles_loop rest profiles colorIndex
         else
           let icon = spaceIcon space;
               displayName = (if ArcSpace.Title space = [] then profileName
                              else ArcSpace.Title space);
               color = containerColors ! (colorIndex mod length containerColors)
           in collectUniqueProfiles_loop rest
                (profiles @ [(profileName,
                   \<lparr> ProfileInfo.Name = profileName, DisplayName = displayName, ContainerID = 0,
                     ProfileInfo.Icon = icon, ProfileInfo.Color = color \<rparr>)])
                (colorIndex + 1))"

definition collectUniqueProfiles :: "ArcSpace list \<Rightarrow> Profiles" where
  "collectUniqueProfiles spaces = collectUniqueProfiles_loop spaces [] 0"

definition isArcContainer :: "ArcItem \<Rightarrow> bool" where
  "isArcContainer item =
     (case ArcItem.Data item of
        None \<Rightarrow> False
      | Some d \<Rightarrow> (case ItemContainer d of None \<Rightarrow> False | Some ic \<Rightarrow> ContainerType ic \<noteq> None))"

fun filterArcContainers :: "ArcItem list \<Rightarrow> ArcItem list" where
  "filterArcContainers [] = []"
| "filterArcContainers (item # rest) =
     (if \<not> isArcContainer item then item # filterArcContainers rest
      else filterArcContainers rest)"

fun getRootItems_loop :: "RawID list \<Rightarrow> (string \<rightharpoonup> ArcItem) \<Rightarrow> ArcItem list" where
  "getRootItems_loop [] itemsMap = []"
| "getRootItems_loop (RawString itemID # rest) itemsMap =
     (case itemsMap itemID of
        Some item \<Rightarrow> item # getRootItems_loop rest itemsMap
      | None \<Rightarrow> getRootItems_loop rest itemsMap)"
| "getRootItems_loop (RawOther # rest) itemsMap = getRootItems_loop rest itemsMap"

definition getRootItemsForSpace :: "ArcSpace \<Rightarrow> (string \<rightharpoonup> ArcItem) \<Rightarrow> ArcItem list" where
  "getRootItemsForSpace space itemsMap =
     (case ContainerIDs space of None \<Rightarrow> [] | Some ids \<Rightarrow> getRootItems_loop ids itemsMap)"

section \<open>The import (importer/importer.go, importer/helpers.go)\<close>

subsection \<open>Containers for the profiles\<close>

text \<open>
  The keys of a map in the order a \<^verbatim>\<open>range\<close> loop visits them: each key once, in the order
  the runtime chooses. The keys named in \<open>order\<close> come first, the others follow.
\<close>

definition rangeKeys :: "string list \<Rightarrow> (string \<times> 'v) list \<Rightarrow> string list" where
  "rangeKeys order m =
     remdups (filter (\<lambda>k. k \<in> set (map fst m)) order)
       @ filter (\<lambda>k. k \<notin> set order) (remdups (map fst m))"

text \<open>\<^verbatim>\<open>profile.ContainerID = v\<close> through the pointer stored in the map under \<open>profileName\<close>.\<close>

fun setContainerID :: "Profiles \<Rightarrow> string \<Rightarrow> int \<Rightarrow> Profiles" where
  "setContainerID [] profileName v = []"
| "setContainerID ((k, profile) # rest) profileName v =
     (if k = profileName then (k, profile\<lparr>ContainerID := v\<rparr>) # rest
      else (k, profile) # setContainerID rest profileName v)"

text \<open>
  The loop "create containers for each unique profile" of \<open>doImport\<close>, over the keys in
  the order of the \<^verbatim>\<open>range\<close>. The new identity's \<open>UserContextID\<close> and \<open>LastUserContextID\<close>
  point to \<open>profile.ContainerID\<close>, which is not assigned again. The state is the profiles,
  the registry and \<open>nextContainerID\<close>.
\<close>

fun allocateContainers ::
  "Runtime \<Rightarrow> string list \<Rightarrow> Profiles \<Rightarrow> ContainersData \<Rightarrow> int
     \<Rightarrow> Profiles \<times> ContainersData \<times> int" where
  "allocateContainers rt [] profiles containersData nextContainerID =
     (profiles, containersData, nextContainerID)"
| "allocateContainers rt (profileName # rest) profiles containersData nextContainerID =
     (case map_of profiles profileName of
        None \<Rightarrow> allocateContainers rt rest profiles containersData nextContainerID
      | Some profile \<Rightarrow>
          (case findContainerByName (Identities containersData) (DisplayName profile) of
             Some existingContainer \<Rightarrow>
               allocateContainers rt rest
                 (setContainerID profiles profileName (GetUserContextID existingContainer))
                 containersData nextContainerID
           | None \<Rightarrow>
               allocateContainers rt rest
                 (setContainerID profiles profileName nextContainerID)
                 (containersData
                    \<lparr> LastUserContextID := Some nextContainerID,
                      Identities := Identities containersData @
                        [\<lparr> ContainerIdentity.UserContextID = Some nextContainerID,
                           ContainerIdentity.Name = DisplayName profile,
                           ContainerIdentity.Icon =
                             MapArcIconToContainerIcon rt (ProfileInfo.Icon profile),
                           ContainerIdentity.Color = MapArcColorToZen rt (ProfileInfo.Color profile),
                           Public = True, L10nID = [], AccessKey = [] \<rparr>] \<rparr>)
                 (int64_wrap (nextContainerID + 1))))"

subsection \<open>Workspaces for the spaces\<close>

text \<open>The state that \<open>doImport\<close> threads through its loops over the spaces.\<close>

record ImportState =
  zenSession :: ZenSession
  uuidCount :: nat
  spaceUUIDMap :: "string \<rightharpoonup> string"
  nextSpacePosition :: int
  spacesCreated :: int
  lastFolderByParent :: "string \<rightharpoonup> string"

text \<open>The name of a space: its title, or \<^verbatim>\<open>"Workspace <id>"\<close> when the title is empty.\<close>

definition resolveSpaceName :: "ArcSpace \<Rightarrow> string" where
  "resolveSpaceName space =
     (if ArcSpace.Title space = [] then ''Workspace '' @ ArcSpace.ID space
      else ArcSpace.Title space)"

fun maxSpacePosition :: "ZenSpace list \<Rightarrow> int \<Rightarrow> int" where
  "maxSpacePosition [] m = m"
| "maxSpacePosition (space # rest) m =
     (if Position space > m then maxSpacePosition rest (Position space)
      else maxSpacePosition rest m)"

text \<open>The loop that updates the first space with the given UUID, then breaks.\<close>

fun updateSpace :: "ZenSpace list \<Rightarrow> string \<Rightarrow> string \<Rightarrow> int \<Rightarrow> ZenSpace list" where
  "updateSpace [] spaceUUID icon containerID = []"
| "updateSpace (s # rest) spaceUUID icon containerID =
     (if UUID s = spaceUUID
      then s\<lparr>ZenSpace.Icon := icon, ContainerTabID := containerID\<rparr> # rest
      else s # updateSpace rest spaceUUID icon containerID)"

text \<open>
  The container id of a space's profile. \<open>collectUniqueProfiles\<close> gives every space's
  profile name an entry, so the lookup does not fail in \<open>doImport\<close>.
\<close>

definition profileContainerID :: "Profiles \<Rightarrow> ArcSpace \<Rightarrow> int" where
  "profileContainerID profiles space =
     (case map_of profiles (getProfileName space) of
        None \<Rightarrow> 0
      | Some profile \<Rightarrow> ContainerID profile)"

text \<open>The body of the loop "process each space".\<close>

definition processSpace :: "Runtime \<Rightarrow> Profiles \<Rightarrow> ArcSpace \<Rightarrow> ImportState \<Rightarrow> ImportState" where
  "processSpace rt profiles space st =
     (let spaceName = resolveSpaceName space;
          arcIcon = spaceIcon space;
          containerID = profileContainerID profiles space;
          zs = zenSession st
      in case findSpaceByName (Spaces zs) spaceName of
           Some existingSpace \<Rightarrow>
             let spaceUUID = UUID existingSpace
             in st\<lparr> zenSession :=
                      zs\<lparr> Tabs := filterTabs (Tabs zs) spaceUUID,
                          Folders := filterFolders (Folders zs) spaceUUID,
                          Spaces := updateSpace (Spaces zs) spaceUUID
                                      (MapArcIconToSvg rt arcIcon) containerID \<rparr>,
                    spaceUUIDMap := (spaceUUIDMap st)(ArcSpace.ID space \<mapsto> spaceUUID),
                    spacesCreated := int64_wrap (spacesCreated st + 1) \<rparr>
         | None \<Rightarrow>
             let spaceUUID = newUUID rt (uuidCount st)
             in st\<lparr> zenSession :=
                      zs\<lparr> Spaces := Spaces zs @
                            [\<lparr> UUID = spaceUUID, ZenSpace.Name = spaceName,
                               ZenSpace.Icon = MapArcIconToSvg rt arcIcon,
                               ContainerTabID = containerID,
                               Position = nextSpacePosition st,
                               Theme = \<lparr> Type = ''gradient'' \<rparr>,
                               HasCollapsedPinnedTabs = False \<rparr>] \<rparr>,
                    uuidCount := uuidCount st + 1,
                    nextSpacePosition := int64_wrap (nextSpacePosition st + 1000),
                    spaceUUIDMap := (spaceUUIDMap st)(ArcSpace.ID space \<mapsto> spaceUUID),
                    spacesCreated := int64_wrap (spacesCreated st + 1) \<rparr>)"

fun processSpaces :: "Runtime \<Rightarrow> Profiles \<Rightarrow> ArcSpace list \<Rightarrow> ImportState \<Rightarrow> ImportState" where
  "processSpaces rt profiles [] st = st"
| "processSpaces rt profiles (space # rest) st =
     processSpaces rt profiles rest (processSpace rt profiles space st)"

subsection \<open>The items\<close>

fun buildItemsMap :: "ArcItem list \<Rightarrow> (string \<rightharpoonup> ArcItem) \<Rightarrow> (string \<rightharpoonup> ArcItem)" where
  "buildItemsMap [] itemsMap = itemsMap"
| "buildItemsMap (item # rest) itemsMap = buildItemsMap rest (itemsMap(ArcItem.ID item \<mapsto> item))"

text \<open>
  \<open>collectAllURLs\<close>. The closure \<open>collect\<close> recurses through the children with no guard
  against a cycle; \<open>fuel\<close> bounds the depth of the recursion and \<open>None\<close> means that the
  call does not return. The list \<open>urls\<close> has no duplicates, so \<open>seen[url]\<close> is membership.
\<close>

fun collect :: "(string \<rightharpoonup> ArcItem) \<Rightarrow> nat \<Rightarrow> ArcItem \<Rightarrow> string list \<Rightarrow> string list option"
  and collectChildren ::
    "(string \<rightharpoonup> ArcItem) \<Rightarrow> nat \<Rightarrow> string list \<Rightarrow> string list \<Rightarrow> string list option" where
  "collect itemsMap 0 item urls = None"
| "collect itemsMap (Suc fuel) item urls =
     (if isArcContainer item then collectChildren itemsMap fuel (ChildrenIds item) urls
      else
        let urls' =
              (case ArcItem.Data item of
                 None \<Rightarrow> urls
               | Some d \<Rightarrow>
                   (case Tab d of
                      None \<Rightarrow> urls
                    | Some t \<Rightarrow>
                        if SavedURL t \<noteq> [] \<and> SavedURL t \<notin> set urls then urls @ [SavedURL t]
                        else urls))
        in collectChildren itemsMap fuel (ChildrenIds item) urls')"
| "collectChildren itemsMap fuel [] urls = Some urls"
| "collectChildren itemsMap fuel (childID # rest) urls =
     (case itemsMap childID of
        None \<Rightarrow> collectChildren itemsMap fuel rest urls
      | Some child \<Rightarrow>
          (case collect itemsMap fuel child urls of
             None \<Rightarrow> None
           | Some urls' \<Rightarrow> collectChildren itemsMap fuel rest urls'))"

fun collectAllURLs_loop ::
  "(string \<rightharpoonup> ArcItem) \<Rightarrow> nat \<Rightarrow> ArcItem list \<Rightarrow> string list \<Rightarrow> string list option" where
  "collectAllURLs_loop itemsMap fuel [] urls = Some urls"
| "collectAllURLs_loop itemsMap fuel (item # rest) urls =
     (case collect itemsMap fuel item urls of
        None \<Rightarrow> None
      | Some urls' \<Rightarrow> collectAllURLs_loop itemsMap fuel rest urls')"

definition collectAllURLs ::
  "nat \<Rightarrow> ArcItem list \<Rightarrow> (string \<rightharpoonup> ArcItem) \<Rightarrow> string list option" where
  "collectAllURLs fuel items itemsMap = collectAllURLs_loop itemsMap fuel items []"

text \<open>The loop "pre-generate UUIDs for all items": the map and the number of UUIDs drawn.\<close>

fun generateUUIDs ::
  "Runtime \<Rightarrow> ArcItem list \<Rightarrow> (string \<rightharpoonup> string) \<Rightarrow> nat \<Rightarrow> (string \<rightharpoonup> string) \<times> nat" where
  "generateUUIDs rt [] arcToZenUUIDMap k = (arcToZenUUIDMap, k)"
| "generateUUIDs rt (item # rest) arcToZenUUIDMap k =
     generateUUIDs rt rest (arcToZenUUIDMap(ArcItem.ID item \<mapsto> newUUID rt k)) (k + 1)"

subsection \<open>Inserting an item and its children\<close>

text \<open>
  The arguments of \<open>insertItemWithChildren\<close> that stay the same through the recursion.
  (\<open>spaceUUIDMap\<close>, also constant there, is read from the state.)
\<close>

record InsertArgs =
  spaceID :: string
  space :: ArcSpace
  itemsMap :: "string \<rightharpoonup> ArcItem"
  arcToZenUUIDMap :: "string \<rightharpoonup> string"
  containersData :: ContainersData
  now :: int

text \<open>The loop "find container ID": the first identity with this name and a valid id.\<close>

fun findContainerID :: "ContainerIdentity list \<Rightarrow> string \<Rightarrow> int" where
  "findContainerID [] spaceName = 0"
| "findContainerID (container # rest) spaceName =
     (if ContainerIdentity.Name container = spaceName \<and> HasValidUserContextID container
      then GetUserContextID container
      else findContainerID rest spaceName)"

definition itemContainerID :: "InsertArgs \<Rightarrow> int" where
  "itemContainerID a =
     (let spaceName = (if ArcSpace.Title (space a) = [] then ''Workspace '' @ spaceID a
                       else ArcSpace.Title (space a))
      in findContainerID (Identities (containersData a)) spaceName)"

definition itemTitle :: "ArcItem \<Rightarrow> string" where
  "itemTitle arcItem =
     (let title = ArcItem.Title arcItem;
          title = (if title = [] then
                     (case ArcItem.Data arcItem of
                        None \<Rightarrow> title
                      | Some d \<Rightarrow> (case Tab d of None \<Rightarrow> title | Some t \<Rightarrow> SavedTitle t))
                   else title)
      in if title = [] then ''Untitled'' else title)"

definition itemURL :: "ArcItem \<Rightarrow> string" where
  "itemURL arcItem =
     (case ArcItem.Data arcItem of
        None \<Rightarrow> []
      | Some d \<Rightarrow> (case Tab d of None \<Rightarrow> [] | Some t \<Rightarrow> SavedURL t))"

text \<open>\<^verbatim>\<open>fmt.Sprintf("%d-%d", now, len(zenSession.Folders))\<close>.\<close>

definition newFolderID :: "int \<Rightarrow> nat \<Rightarrow> string" where
  "newFolderID t n = Sprintf_d t @ ''-'' @ digits n"

text \<open>
  The folder branch up to the recursion into the children creates an anchor tab, a
  folder and its group. The three values it appends, for the folder id \<open>folderID\<close>:
\<close>

definition anchorTab :: "Runtime \<Rightarrow> InsertArgs \<Rightarrow> ImportState \<Rightarrow> ZenTab" where
  "anchorTab rt a st =
     (let workspaceUUID = lookupString (spaceUUIDMap st) (spaceID a);
          containerID = itemContainerID a;
          folderID = newFolderID (now a) (length (Folders (zenSession st)));
          anchorTabID = newUUID rt (uuidCount st)
      in \<lparr> Entries = [\<lparr> URL = ''about:blank'', ZenTabEntry.Title = [],
                          TriggeringPrincipalBase64 = ''eyIzIjp7fX0='' \<rparr>],
            LastAccessed = now a, ZenTab.Pinned = True, Hidden = False,
            ZenWorkspace = workspaceUUID, ZenSyncID = anchorTabID, ZenEssential = False,
            ZenDefaultUserContextID = JsonInt containerID, ZenIsEmpty = True,
            ZenStaticLabel = [], ZenPinnedInitialState = None,
            ZenTab.UserContextID = containerID,
            Index = int (length (Tabs (zenSession st))),
            Image = None, GroupID = folderID \<rparr>)"

definition prevSiblingInfo :: "string \<Rightarrow> ImportState \<Rightarrow> PrevSibling" where
  "prevSiblingInfo parentFolderID st =
     (if parentFolderID \<noteq> [] then
        (case lastFolderByParent st parentFolderID of
           Some prevFolderID \<Rightarrow> PrevSiblingRef ''group'' prevFolderID
         | None \<Rightarrow> PrevSiblingNil)
      else PrevSiblingNil)"

definition newFolder ::
  "Runtime \<Rightarrow> InsertArgs \<Rightarrow> ArcItem \<Rightarrow> string \<Rightarrow> ImportState \<Rightarrow> ZenFolder" where
  "newFolder rt a arcItem parentFolderID st =
     (let workspaceUUID = lookupString (spaceUUIDMap st) (spaceID a);
          title = itemTitle arcItem;
          folderID = newFolderID (now a) (length (Folders (zenSession st)));
          anchorTabID = newUUID rt (uuidCount st)
      in \<lparr> ZenFolder.Pinned = True, SplitViewGroup = False, ZenFolder.ID = folderID,
            ZenFolder.Name = title, ZenFolder.Collapsed = True, SaveOnWindowClose = True,
            ZenFolder.ParentID = parentFolderID,
            PrevSiblingInfo = prevSiblingInfo parentFolderID st,
            EmptyTabIDs = [anchorTabID], UserIcon = [], WorkspaceID = workspaceUUID \<rparr>)"

definition newGroup :: "InsertArgs \<Rightarrow> ArcItem \<Rightarrow> ImportState \<Rightarrow> ZenGroup" where
  "newGroup a arcItem st =
     \<lparr> ZenGroup.ID = newFolderID (now a) (length (Folders (zenSession st))),
       ZenGroup.Name = itemTitle arcItem, ZenGroup.Color = None,
       ZenGroup.Collapsed = True, ZenGroup.Pinned = True, Essential = False,
       SplitView = False \<rparr>"

text \<open>
  The folder branch up to the recursion: the three appends, the UUID drawn for the
  anchor tab, and the folder recorded as the last one of its parent. Returns the
  folder's id.
\<close>

definition createFolder ::
  "Runtime \<Rightarrow> InsertArgs \<Rightarrow> ArcItem \<Rightarrow> string \<Rightarrow> ImportState \<Rightarrow> string \<times> ImportState" where
  "createFolder rt a arcItem parentFolderID st =
     (let zs = zenSession st;
          folderID = newFolderID (now a) (length (Folders zs))
      in (folderID,
          st\<lparr> zenSession :=
                zs\<lparr> Tabs := Tabs zs @ [anchorTab rt a st],
                    Folders := Folders zs @ [newFolder rt a arcItem parentFolderID st],
                    Groups := Groups zs @ [newGroup a arcItem st] \<rparr>,
              uuidCount := uuidCount st + 1,
              lastFolderByParent := (lastFolderByParent st)(parentFolderID \<mapsto> folderID) \<rparr>))"

text \<open>The tab branch: the tab it appends, and the append.\<close>

definition newTab :: "Runtime \<Rightarrow> InsertArgs \<Rightarrow> ArcItem \<Rightarrow> string \<Rightarrow> ImportState \<Rightarrow> ZenTab" where
  "newTab rt a arcItem parentFolderID st =
     (let workspaceUUID = lookupString (spaceUUIDMap st) (spaceID a);
          containerID = itemContainerID a;
          zenUUID = lookupString (arcToZenUUIDMap a) (ArcItem.ID arcItem);
          title = itemTitle arcItem;
          url = itemURL arcItem;
          faviconDataURL = (if url \<noteq> [] then FetchAsDataURL rt url else []);
          tabEntry = \<lparr> URL = url, ZenTabEntry.Title = title,
                       TriggeringPrincipalBase64 = ''eyIzIjp7fX0='' \<rparr>;
          imageField = (if faviconDataURL \<noteq> [] then Some faviconDataURL else None)
      in \<lparr> Entries = [tabEntry],
            LastAccessed = now a, ZenTab.Pinned = True, Hidden = False,
            ZenWorkspace = workspaceUUID, ZenSyncID = zenUUID, ZenEssential = False,
            ZenDefaultUserContextID = JsonInt containerID, ZenIsEmpty = False,
            ZenStaticLabel = title,
            ZenPinnedInitialState = Some \<lparr> entry = tabEntry, image = imageField \<rparr>,
            ZenTab.UserContextID = containerID,
            Index = int (length (Tabs (zenSession st))),
            Image = imageField,
            GroupID = (if parentFolderID \<noteq> [] then parentFolderID else []) \<rparr>)"

definition createTab ::
  "Runtime \<Rightarrow> InsertArgs \<Rightarrow> ArcItem \<Rightarrow> string \<Rightarrow> ImportState \<Rightarrow> ImportState" where
  "createTab rt a arcItem parentFolderID st =
     st\<lparr> zenSession :=
          (zenSession st)\<lparr> Tabs := Tabs (zenSession st) @ [newTab rt a arcItem parentFolderID st] \<rparr> \<rparr>"

text \<open>
  \<open>insertItemWithChildren\<close> and its loops over the children. The recursion has no guard
  against a cycle in the items; \<open>fuel\<close> bounds its depth and \<open>None\<close> means that the call
  does not return. The result is the number of items created and the new state.
\<close>

fun insertItemWithChildren ::
    "Runtime \<Rightarrow> InsertArgs \<Rightarrow> nat \<Rightarrow> ArcItem \<Rightarrow> string \<Rightarrow> ImportState
       \<Rightarrow> (int \<times> ImportState) option"
  and insertChildren ::
    "Runtime \<Rightarrow> InsertArgs \<Rightarrow> nat \<Rightarrow> string list \<Rightarrow> string \<Rightarrow> ImportState
       \<Rightarrow> (int \<times> ImportState) option" where
  "insertItemWithChildren rt a 0 arcItem parentFolderID st = None"
| "insertItemWithChildren rt a (Suc fuel) arcItem parentFolderID st =
     (if isArcContainer arcItem
      then insertChildren rt a fuel (ChildrenIds arcItem) parentFolderID st
      else if length (ChildrenIds arcItem) > 0 then
        (case createFolder rt a arcItem parentFolderID st of
           (folderID, st') \<Rightarrow>
             (case insertChildren rt a fuel (ChildrenIds arcItem) folderID st' of
                None \<Rightarrow> None
              | Some (n, st'') \<Rightarrow> Some (int64_wrap (1 + n), st'')))
      else Some (1, createTab rt a arcItem parentFolderID st))"
| "insertChildren rt a fuel [] parentFolderID st = Some (0, st)"
| "insertChildren rt a fuel (childID # rest) parentFolderID st =
     (case itemsMap a childID of
        None \<Rightarrow> insertChildren rt a fuel rest parentFolderID st
      | Some child \<Rightarrow>
          (case insertItemWithChildren rt a fuel child parentFolderID st of
             None \<Rightarrow> None
           | Some (n, st') \<Rightarrow>
               (case insertChildren rt a fuel rest parentFolderID st' of
                  None \<Rightarrow> None
                | Some (m, st'') \<Rightarrow> Some (int64_wrap (n + m), st''))))"

text \<open>The loop over the root items of one space, and the loop "creating items".\<close>

fun insertRootItems ::
  "Runtime \<Rightarrow> InsertArgs \<Rightarrow> nat \<Rightarrow> ArcItem list \<Rightarrow> ImportState \<Rightarrow> (int \<times> ImportState) option" where
  "insertRootItems rt a fuel [] st = Some (0, st)"
| "insertRootItems rt a fuel (rootItem # rest) st =
     (case insertItemWithChildren rt a fuel rootItem [] st of
        None \<Rightarrow> None
      | Some (n, st') \<Rightarrow>
          (case insertRootItems rt a fuel rest st' of
             None \<Rightarrow> None
           | Some (m, st'') \<Rightarrow> Some (int64_wrap (n + m), st'')))"

definition insertArgs ::
  "Runtime \<Rightarrow> ArcSpace \<Rightarrow> (string \<rightharpoonup> ArcItem) \<Rightarrow> (string \<rightharpoonup> string) \<Rightarrow> ContainersData
     \<Rightarrow> InsertArgs" where
  "insertArgs rt sp im uuids cd =
     \<lparr> spaceID = ArcSpace.ID sp, space = sp, itemsMap = im, arcToZenUUIDMap = uuids,
       containersData = cd, now = timeNow rt \<rparr>"

fun createItems ::
  "Runtime \<Rightarrow> nat \<Rightarrow> (string \<rightharpoonup> ArcItem) \<Rightarrow> (string \<rightharpoonup> string) \<Rightarrow> ContainersData
     \<Rightarrow> ArcSpace list \<Rightarrow> ImportState \<Rightarrow> (int \<times> ImportState) option" where
  "createItems rt fuel im uuids cd [] st = Some (0, st)"
| "createItems rt fuel im uuids cd (sp # rest) st =
     (case insertRootItems rt (insertArgs rt sp im uuids cd) fuel
             (getRootItemsForSpace sp im) st of
        None \<Rightarrow> None
      | Some (n, st') \<Rightarrow>
          (case createItems rt fuel im uuids cd rest st' of
             None \<Rightarrow> None
           | Some (m, st'') \<Rightarrow> Some (int64_wrap (n + m), st'')))"

subsection \<open>\<open>doImport\<close> and \<open>Import\<close>\<close>

record ImportResult =
  Success :: bool
  SpacesCreated :: int
  ItemsImported :: int
  ContainersCount :: int

text \<open>The profiles and the registry after the loop over the profiles.\<close>

definition allocateProfiles ::
  "Runtime \<Rightarrow> ArcSpace list \<Rightarrow> ContainersData \<Rightarrow> Profiles \<times> ContainersData" where
  "allocateProfiles rt spaces cd =
     (let profiles = collectUniqueProfiles spaces;
          nextContainerID = calculateNextContainerID cd
      in case allocateContainers rt (rangeKeys (rangeOrder rt) profiles) profiles cd
                nextContainerID of
           (profiles', cd', n) \<Rightarrow> (profiles', cd'))"

text \<open>The state after the loop "process each space".\<close>

definition spacesProcessed ::
  "Runtime \<Rightarrow> Profiles \<Rightarrow> ArcSpace list \<Rightarrow> ZenSession \<Rightarrow> ImportState" where
  "spacesProcessed rt profiles spaces zs =
     processSpaces rt profiles spaces
       \<lparr> zenSession = zs, uuidCount = 0, spaceUUIDMap = Map.empty,
         nextSpacePosition = int64_wrap (maxSpacePosition (Spaces zs) 0 + 1000),
         spacesCreated = 0, lastFolderByParent = Map.empty \<rparr>"

text \<open>
  \<open>doImport\<close>. The pre-caching of the favicons between \<open>collectAllURLs\<close> and the items
  changes the fetcher's cache only, which is outside the model. \<open>None\<close>: the call does
  not return (one of the recursions runs out of \<open>fuel\<close>).
\<close>

definition doImport ::
  "Runtime \<Rightarrow> nat \<Rightarrow> ArcData \<Rightarrow> ZenSession \<Rightarrow> ContainersData
     \<Rightarrow> (import_error + ImportResult \<times> ZenSession \<times> ContainersData) option" where
  "doImport rt fuel arcData zs cd =
     (case Sidebar arcData of
        None \<Rightarrow> Some (Inl NoMainContainer)
      | Some sidebar \<Rightarrow>
          if length (Containers sidebar) < 2 then Some (Inl NoMainContainer)
          else
            (case Containers sidebar ! 1 of
               None \<Rightarrow> Some (Inl NilPointerDereference)
             | Some mainContainer \<Rightarrow>
                 let spaces = parseArcSpaces (ArcContainer.Spaces mainContainer);
                     items = parseArcItems (Items mainContainer)
                 in case allocateProfiles rt spaces cd of
                      (profiles, cd') \<Rightarrow>
                        let st = spacesProcessed rt profiles spaces zs;
                            im = buildItemsMap items Map.empty
                        in case collectAllURLs fuel items im of
                             None \<Rightarrow> None
                           | Some allURLs \<Rightarrow>
                               (case generateUUIDs rt (filterArcContainers items) Map.empty
                                       (uuidCount st) of
                                  (uuids, k) \<Rightarrow>
                                    (case createItems rt fuel im uuids cd' spaces
                                            (st\<lparr>uuidCount := k\<rparr>) of
                                       None \<Rightarrow> None
                                     | Some (pinsCreated, st') \<Rightarrow>
                                         Some (Inr
                                           (\<lparr> Success = True,
                                              SpacesCreated = spacesCreated st',
                                              ItemsImported = pinsCreated,
                                              ContainersCount = int (length (Identities cd')) \<rparr>,
                                            zenSession st', cd'))))))"

text \<open>
  The two files of the target profile that \<open>Import\<close> reads and writes: \<open>None\<close> is a file
  that does not exist. A file is identified with the value its content encodes (the JSON
  encoding and, for the session, the container codec lie in between).
\<close>

record Disk =
  containersFile :: "ContainersData option"
  sessionFile :: "ZenSession option"

definition readZenSession :: "Disk \<Rightarrow> ZenSession" where
  "readZenSession disk =
     (case sessionFile disk of
        None \<Rightarrow> \<lparr> Spaces = [], Tabs = [], Folders = [], Groups = [] \<rparr>
      | Some session \<Rightarrow> session)"

definition readContainers :: "Disk \<Rightarrow> ContainersData" where
  "readContainers disk =
     (case containersFile disk of
        None \<Rightarrow> \<lparr> Version = 5, LastUserContextID = None, Identities = [] \<rparr>
      | Some data \<Rightarrow> data)"

text \<open>
  \<open>Import\<close>, for a profile directory that exists and files that are read and decoded
  without error: \<open>doImport\<close>, then the two writes unless \<open>dryRun\<close>. \<open>containers_ok\<close> and
  \<open>session_ok\<close> are the outcomes of writing \<^verbatim>\<open>containers.json\<close> and of compressing and writing
  the session file. The result is the returned value and the files afterwards.
\<close>

definition Import ::
  "Runtime \<Rightarrow> nat \<Rightarrow> bool \<Rightarrow> bool \<Rightarrow> bool \<Rightarrow> ArcData \<Rightarrow> Disk
     \<Rightarrow> ((import_error + ImportResult) \<times> Disk) option" where
  "Import rt fuel dryRun containers_ok session_ok arcData disk =
     (case doImport rt fuel arcData (readZenSession disk) (readContainers disk) of
        None \<Rightarrow> None
      | Some (Inl err) \<Rightarrow> Some (Inl err, disk)
      | Some (Inr (result, zs, cd)) \<Rightarrow>
          if dryRun then Some (Inr result, disk)
          else
            (case writeContainers containers_ok cd of
               Inl err \<Rightarrow> Some (Inl err, disk)
             | Inr cd' \<Rightarrow>
                 let disk' = disk\<lparr>containersFile := Some cd'\<rparr>
                 in if session_ok then Some (Inr result, disk'\<lparr>sessionFile := Some zs\<rparr>)
                    else Some (Inl WriteSessionFailed, disk')))"

section \<open>Properties of the emitted session\<close>

text \<open>
  The session after \<open>doImport\<close>'s loop over the spaces and before any item is created:
  what is left of the given session once the matched workspaces are purged.
\<close>

definition sessionBeforeItems ::
  "Runtime \<Rightarrow> ArcData \<Rightarrow> ZenSession \<Rightarrow> ContainersData \<Rightarrow> ZenSession" where
  "sessionBeforeItems rt arcData zs cd =
     (case Sidebar arcData of
        None \<Rightarrow> zs
      | Some sidebar \<Rightarrow>
          if length (Containers sidebar) < 2 then zs
          else
            (case Containers sidebar ! 1 of
               None \<Rightarrow> zs
             | Some mainContainer \<Rightarrow>
                 let spaces = parseArcSpaces (ArcContainer.Spaces mainContainer)
                 in zenSession
                      (spacesProcessed rt (fst (allocateProfiles rt spaces cd)) spaces zs)))"

text \<open>
  A folder is anchored in a session: some tab marked empty has the folder's id as group
  id and its sync id among the folder's anchor-tab ids, and some group has the folder's
  id, name and collapsed state.
\<close>

definition anchoredFolder :: "ZenSession \<Rightarrow> ZenFolder \<Rightarrow> bool" where
  "anchoredFolder zs f =
     ((\<exists>t \<in> set (Tabs zs). ZenIsEmpty t \<and> GroupID t = ZenFolder.ID f
          \<and> ZenSyncID t \<in> set (EmptyTabIDs f))
      \<and> (\<exists>g \<in> set (Groups zs). ZenGroup.ID g = ZenFolder.ID f
            \<and> ZenGroup.Name g = ZenFolder.Name f
            \<and> ZenGroup.Collapsed g = ZenFolder.Collapsed f))"

text \<open>
  A list of folders in emission order is chained from \<open>prev\<close>: the first refers to \<open>prev\<close>,
  each later one to the folder before it.
\<close>

fun chainedFrom :: "PrevSibling \<Rightarrow> ZenFolder list \<Rightarrow> bool" where
  "chainedFrom prev [] = True"
| "chainedFrom prev (f # fs) =
     (PrevSiblingInfo f = prev \<and> chainedFrom (PrevSiblingRef ''group'' (ZenFolder.ID f)) fs)"

text \<open>
  Following the previous-sibling references from a folder, looking each referenced id up
  among \<open>fs\<close>, for at most \<open>n\<close> folders: the ids visited when the walk ends at a folder with
  an empty reference, \<open>None\<close> when it meets an unknown id or does not end within \<open>n\<close>.
\<close>

fun followPrevSiblings :: "nat \<Rightarrow> ZenFolder list \<Rightarrow> ZenFolder \<Rightarrow> string list option" where
  "followPrevSiblings 0 fs f = None"
| "followPrevSiblings (Suc n) fs f =
     (case PrevSiblingInfo f of
        PrevSiblingNil \<Rightarrow> Some [ZenFolder.ID f]
      | PrevSiblingRef t i \<Rightarrow>
          (case find (\<lambda>g. ZenFolder.ID g = i) fs of
             None \<Rightarrow> None
           | Some g \<Rightarrow>
               (case followPrevSiblings n fs g of
                  None \<Rightarrow> None
                | Some ids \<Rightarrow> Some (ZenFolder.ID f # ids))))"

text \<open>The folders among \<open>fs\<close> whose parent is \<open>p\<close>, in the order of \<open>fs\<close>.\<close>

definition siblingsUnder :: "string \<Rightarrow> ZenFolder list \<Rightarrow> ZenFolder list" where
  "siblingsUnder p fs = filter (\<lambda>f. ZenFolder.ParentID f = p) fs"







text \<open>
  The spaces that \<open>doImport\<close> processes, the names of the workspaces in the session file,
  and the workspace names after the loop over the spaces, as a function of the names
  before: a name is added when it is not there yet.
\<close>

fun addNames :: "string list \<Rightarrow> ArcSpace list \<Rightarrow> string list" where
  "addNames names [] = names"
| "addNames names (sp # rest) =
     addNames (if resolveSpaceName sp \<in> set names then names
               else names @ [resolveSpaceName sp]) rest"

definition importedSpaces :: "ArcData \<Rightarrow> ArcSpace list" where
  "importedSpaces arcData =
     (case Sidebar arcData of
        None \<Rightarrow> []
      | Some sidebar \<Rightarrow>
          if length (Containers sidebar) < 2 then []
          else
            (case Containers sidebar ! 1 of
               None \<Rightarrow> []
             | Some mainContainer \<Rightarrow> parseArcSpaces (ArcContainer.Spaces mainContainer)))"

definition workspaceNames :: "Disk \<Rightarrow> string list" where
  "workspaceNames disk = map ZenSpace.Name (Spaces (readZenSession disk))"

text \<open>
  Two runs of \<open>Import\<close> in a row on the same source data, neither a dry run and with all
  writes succeeding, the second on the files the first has left: the files afterwards.
\<close>

definition importTwice :: "Runtime \<Rightarrow> Runtime \<Rightarrow> nat \<Rightarrow> ArcData \<Rightarrow> Disk \<Rightarrow> Disk option" where
  "importTwice rt1 rt2 fuel arcData disk =
     (case Import rt1 fuel False True True arcData disk of
        Some (Inr res1, disk1) \<Rightarrow>
          (case Import rt2 fuel False True True arcData disk1 of
             Some (Inr res2, disk2) \<Rightarrow> Some disk2
           | _ \<Rightarrow> None)
      | _ \<Rightarrow> None)"

text \<open>
  In the words of the spec, the folders of the source in the order of their emission:
  "depth-first, source-forward order, no reordering at any level", a container marker
  being transparent. \<open>subFolders\<close> are the items among the given children ids that become
  folders directly under the parent, in the order of the ids; \<open>foldersIn\<close> lists every
  folder item below the given children ids in pre-order, each with its own sub-folder
  items. \<open>fuel\<close> is the depth that the walk of the code is given.
\<close>

fun folderOf :: "(string \<rightharpoonup> ArcItem) \<Rightarrow> nat \<Rightarrow> ArcItem \<Rightarrow> ArcItem list"
  and subFolders :: "(string \<rightharpoonup> ArcItem) \<Rightarrow> nat \<Rightarrow> string list \<Rightarrow> ArcItem list" where
  "folderOf im 0 item = []"
| "folderOf im (Suc fuel) item =
     (if isArcContainer item then subFolders im fuel (ChildrenIds item)
      else if ChildrenIds item \<noteq> [] then [item] else [])"
| "subFolders im fuel [] = []"
| "subFolders im fuel (childID # rest) =
     (case im childID of
        None \<Rightarrow> subFolders im fuel rest
      | Some child \<Rightarrow> folderOf im fuel child @ subFolders im fuel rest)"

fun foldersOf :: "(string \<rightharpoonup> ArcItem) \<Rightarrow> nat \<Rightarrow> ArcItem \<Rightarrow> (ArcItem \<times> ArcItem list) list"
  and foldersIn :: "(string \<rightharpoonup> ArcItem) \<Rightarrow> nat \<Rightarrow> string list \<Rightarrow> (ArcItem \<times> ArcItem list) list" where
  "foldersOf im 0 item = []"
| "foldersOf im (Suc fuel) item =
     (if isArcContainer item then foldersIn im fuel (ChildrenIds item)
      else if ChildrenIds item \<noteq> []
        then (item, subFolders im fuel (ChildrenIds item)) # foldersIn im fuel (ChildrenIds item)
        else [])"
| "foldersIn im fuel [] = []"
| "foldersIn im fuel (childID # rest) =
     (case im childID of
        None \<Rightarrow> foldersIn im fuel rest
      | Some child \<Rightarrow> foldersOf im fuel child @ foldersIn im fuel rest)"

text \<open>
  The item catalogue of the source, and the folder items of one space and of all
  processed spaces, each with its sub-folder items.
\<close>

definition importedItems :: "ArcData \<Rightarrow> (string \<rightharpoonup> ArcItem)" where
  "importedItems arcData =
     (case Sidebar arcData of
        None \<Rightarrow> Map.empty
      | Some sidebar \<Rightarrow>
          if length (Containers sidebar) < 2 then Map.empty
          else
            (case Containers sidebar ! 1 of
               None \<Rightarrow> Map.empty
             | Some mainContainer \<Rightarrow> buildItemsMap (parseArcItems (Items mainContainer)) Map.empty))"

definition spaceFolders :: "(string \<rightharpoonup> ArcItem) \<Rightarrow> nat \<Rightarrow> ArcSpace \<Rightarrow> (ArcItem \<times> ArcItem list) list" where
  "spaceFolders im fuel sp = concat (map (foldersOf im fuel) (getRootItemsForSpace sp im))"

definition sourceFolders :: "nat \<Rightarrow> ArcData \<Rightarrow> (ArcItem \<times> ArcItem list) list" where
  "sourceFolders fuel arcData =
     concat (map (spaceFolders (importedItems arcData) fuel) (importedSpaces arcData))"

text \<open>
  The source items of the folders under \<open>p\<close>, in emission order, when the \<open>i\<close>-th folder
  of \<open>fs\<close> is the one emitted for the \<open>i\<close>-th entry of \<open>src\<close>.
\<close>

definition sourcesUnder ::
  "string \<Rightarrow> ZenFolder list \<Rightarrow> (ArcItem \<times> ArcItem list) list \<Rightarrow> ArcItem list" where
  "sourcesUnder p fs src =
     map (fst \<circ> snd) (filter (\<lambda>(f, s). ZenFolder.ParentID f = p) (zip fs src))"

text \<open>The invariants of the walk over the items that the proofs below carry along.\<close>

definition anchorInv :: "ZenFolder list \<Rightarrow> ImportState \<Rightarrow> bool" where
  "anchorInv old st =
     (\<exists>new. Folders (zenSession st) = old @ new
        \<and> (\<forall>f \<in> set new. anchoredFolder (zenSession st) f))"

definition lastSiblingID :: "ZenFolder list \<Rightarrow> string option" where
  "lastSiblingID fs = (if fs = [] then None else Some (ZenFolder.ID (last fs)))"

definition chainInv :: "int \<Rightarrow> nat \<Rightarrow> ImportState \<Rightarrow> bool" where
  "chainInv t k st =
     (k \<le> length (Folders (zenSession st))
      \<and> (\<forall>i. k \<le> i \<and> i < length (Folders (zenSession st))
             \<longrightarrow> ZenFolder.ID (Folders (zenSession st) ! i) = newFolderID t i)
      \<and> (\<forall>p. p \<noteq> [] \<longrightarrow>
             chainedFrom PrevSiblingNil (siblingsUnder p (drop k (Folders (zenSession st))))
             \<and> lastFolderByParent st p
                 = lastSiblingID (siblingsUnder p (drop k (Folders (zenSession st)))))
      \<and> (\<forall>f \<in> set (siblingsUnder [] (drop k (Folders (zenSession st)))).
             PrevSiblingInfo f = PrevSiblingNil))"

text \<open>
  A parent id is fresh at \<open>k\<close> when no folder emitted from the \<open>k\<close>-th on gets it as its id.
  The folders \<open>new\<close>, emitted under the parent \<open>p\<close> from the \<open>k\<close>-th on, are those of the
  source entries \<open>src\<close>, with the items \<open>direct\<close> directly under \<open>p\<close>.
\<close>

definition fresh :: "int \<Rightarrow> string \<Rightarrow> nat \<Rightarrow> bool" where
  "fresh t p k = (\<forall>j \<ge> k. p \<noteq> newFolderID t j)"

definition emitted ::
  "int \<Rightarrow> string \<Rightarrow> nat \<Rightarrow> ZenFolder list \<Rightarrow> (ArcItem \<times> ArcItem list) list \<Rightarrow> ArcItem list \<Rightarrow> bool" where
  "emitted t p k new src direct =
     (length new = length src
      \<and> (\<forall>j < length new. ZenFolder.ID (new ! j) = newFolderID t (k + j)
             \<and> ZenFolder.Name (new ! j) = itemTitle (fst (src ! j)))
      \<and> (\<forall>f \<in> set new. ZenFolder.ParentID f = p \<or> ZenFolder.ParentID f \<in> ZenFolder.ID ` set new)
      \<and> sourcesUnder p new src = direct
      \<and> (\<forall>j < length new. sourcesUnder (ZenFolder.ID (new ! j)) new src = snd (src ! j)))"

text \<open>The session and the registry that a run of \<open>doImport\<close> returns, if it returns them.\<close>

definition importedSession ::
  "(import_error + ImportResult \<times> ZenSession \<times> ContainersData) option \<Rightarrow> ZenSession option" where
  "importedSession r = (case r of Some (Inr (res, zs, cd)) \<Rightarrow> Some zs | _ \<Rightarrow> None)"

definition importedRegistry ::
  "(import_error + ImportResult \<times> ZenSession \<times> ContainersData) option
     \<Rightarrow> ContainersData option" where
  "importedRegistry r = (case r of Some (Inr (res, zs, cd)) \<Rightarrow> Some cd | _ \<Rightarrow> None)"

section \<open>Example data\<close>

text \<open>
  A runtime for the examples: the \<open>k\<close>-th UUID is \<open>u\<close> followed by \<open>k\<close>, the clock reads
  1700, the \<^verbatim>\<open>range\<close> over the profiles goes in insertion order, no favicon is found, and
  the mappings are the identity, with the container icon \<open>circle\<close>.
\<close>

definition exampleRuntime :: Runtime where
  "exampleRuntime =
     \<lparr> uuidNew = (\<lambda>k. CHR ''u'' # digits k), timeNow = 1700, rangeOrder = [],
       FetchAsDataURL = (\<lambda>url. []), MapArcIconToSvg = (\<lambda>icon. icon),
       MapArcIconToContainerIcon = (\<lambda>icon. ''circle''), MapArcColorToZen = (\<lambda>color. color) \<rparr>"

definition exampleTab :: "string \<Rightarrow> string \<Rightarrow> string \<Rightarrow> ArcItem" where
  "exampleTab i p url =
     \<lparr> ArcItem.ID = i, ArcItem.Title = [], ArcItem.ParentID = p, ChildrenIds = [],
       ArcItem.Data = Some \<lparr> Tab = Some \<lparr> SavedTitle = i, SavedURL = url \<rparr>,
                              ItemContainer = None \<rparr> \<rparr>"

definition exampleFolder :: "string \<Rightarrow> string \<Rightarrow> string list \<Rightarrow> ArcItem" where
  "exampleFolder i p children =
     \<lparr> ArcItem.ID = i, ArcItem.Title = i, ArcItem.ParentID = p, ChildrenIds = children,
       ArcItem.Data = None \<rparr>"

definition exampleSpace ::
  "string \<Rightarrow> string \<Rightarrow> string list \<Rightarrow> ArcProfile option \<Rightarrow> ArcSpace" where
  "exampleSpace i title roots profile =
     \<lparr> ArcSpace.ID = i, ArcSpace.Title = title, ArcSpace.Icon = ''star'', ArcSpace.Color = [],
       ContainerIDs = Some (map RawString roots), CustomInfo = None, Profile = profile \<rparr>"

definition customProfile :: "string \<Rightarrow> ArcProfile option" where
  "customProfile n =
     Some \<lparr> Default = None,
            Custom = Some \<lparr> ArcCustomProfile.Data = Some \<lparr> DirectoryBasename = n \<rparr> \<rparr> \<rparr>"

text \<open>Source data whose main container (index 1) holds the given spaces and items.\<close>

definition exampleArcData :: "ArcSpace list \<Rightarrow> ArcItem list \<Rightarrow> ArcData" where
  "exampleArcData spaces items =
     \<lparr> Sidebar = Some \<lparr> Containers =
         [None, Some \<lparr> ArcContainer.Spaces = map (\<lambda>s. RawObject (Some s)) spaces,
                       Items = map (\<lambda>i. RawObject (Some i)) items \<rparr>] \<rparr> \<rparr>"

definition emptySession :: ZenSession where
  "emptySession = \<lparr> Spaces = [], Tabs = [], Folders = [], Groups = [] \<rparr>"

definition emptyRegistry :: ContainersData where
  "emptyRegistry = \<lparr> Version = 5, LastUserContextID = None, Identities = [] \<rparr>"

text \<open>
  One space "Work" with two root folders \<open>A\<close> and \<open>B\<close>; \<open>A\<close> holds a tab and two folders
  \<open>C\<close> and \<open>D\<close>, each of \<open>B\<close>, \<open>C\<close> and \<open>D\<close> holds one tab.
\<close>

definition nestedExample :: ArcData where
  "nestedExample =
     exampleArcData
       [exampleSpace ''s1'' ''Work'' [''pinned'', ''A'', ''B''] None]
       [exampleFolder ''A'' ''s1'' [''t1'', ''C'', ''D''],
        exampleFolder ''B'' ''s1'' [''t2''],
        exampleFolder ''C'' ''A'' [''t3''],
        exampleFolder ''D'' ''A'' [''t4''],
        exampleTab ''t1'' ''A'' ''https://a.com'',
        exampleTab ''t2'' ''B'' ''https://b.com'',
        exampleTab ''t3'' ''C'' ''https://c.com'',
        exampleTab ''t4'' ''D'' ''https://d.com'']"

text \<open>
  Two spaces "Foo" and "Bar" that use the same custom profile \<open>P1\<close>, each with one tab.
\<close>

definition sharedProfileExample :: ArcData where
  "sharedProfileExample =
     exampleArcData
       [exampleSpace ''s1'' ''Foo'' [''t1''] (customProfile ''P1''),
        exampleSpace ''s2'' ''Bar'' [''t2''] (customProfile ''P1'')]
       [exampleTab ''t1'' ''s1'' ''https://a.com'',
        exampleTab ''t2'' ''s2'' ''https://b.com'']"

text \<open>
  Two spaces without items: "Home" with the default profile and "Work" with the custom
  profile \<open>P1\<close>.
\<close>

definition twoProfilesExample :: ArcData where
  "twoProfilesExample =
     exampleArcData
       [exampleSpace ''s1'' ''Home'' [] None,
        exampleSpace ''s2'' ''Work'' [] (customProfile ''P1'')] []"



text \<open>Target data for the examples: workspaces, tabs and folders already in the session.\<close>

definition exampleWorkspace :: "string \<Rightarrow> string \<Rightarrow> ZenSpace" where
  "exampleWorkspace uuid name =
     \<lparr> UUID = uuid, ZenSpace.Name = name, ZenSpace.Icon = ''old'', ContainerTabID = 0,
       Position = 1000, Theme = \<lparr> Type = ''gradient'' \<rparr>, HasCollapsedPinnedTabs = False \<rparr>"

definition exampleZenTab :: "string \<Rightarrow> bool \<Rightarrow> string \<Rightarrow> ZenTab" where
  "exampleZenTab workspace pinned syncID =
     \<lparr> Entries = [], LastAccessed = 0, ZenTab.Pinned = pinned, Hidden = False,
       ZenWorkspace = workspace, ZenSyncID = syncID, ZenEssential = False,
       ZenDefaultUserContextID = JsonNull, ZenIsEmpty = False, ZenStaticLabel = [],
       ZenPinnedInitialState = None, ZenTab.UserContextID = 0, Index = 0, Image = None,
       GroupID = [] \<rparr>"

definition exampleZenFolder :: "string \<Rightarrow> string \<Rightarrow> ZenFolder" where
  "exampleZenFolder i workspace =
     \<lparr> ZenFolder.Pinned = True, SplitViewGroup = False, ZenFolder.ID = i,
       ZenFolder.Name = i, ZenFolder.Collapsed = True, SaveOnWindowClose = True,
       ZenFolder.ParentID = [], PrevSiblingInfo = PrevSiblingNil, EmptyTabIDs = [],
       UserIcon = [], WorkspaceID = workspace \<rparr>"

definition exampleState :: "ZenSession \<Rightarrow> ImportState" where
  "exampleState zs =
     \<lparr> zenSession = zs, uuidCount = 0, spaceUUIDMap = Map.empty, nextSpacePosition = 3000,
       spacesCreated = 0, lastFolderByParent = Map.empty \<rparr>"

text \<open>
  A session with the workspaces "Home" and "Work", two tabs of "Work" (one pinned), a
  pinned tab of "Home" and a folder of each; a
  session file with two workspaces that are both named "Work"; and source data with the
  single space "Work" and no items.
\<close>

definition mergeExample :: ZenSession where
  "mergeExample =
     \<lparr> Spaces = [exampleWorkspace ''{a}'' ''Home'', exampleWorkspace ''{w}'' ''Work''],
       Tabs = [exampleZenTab ''{w}'' True ''p1'', exampleZenTab ''{w}'' False ''n1'',
               exampleZenTab ''{a}'' True ''p2''],
       Folders = [exampleZenFolder ''f1'' ''{w}'', exampleZenFolder ''f2'' ''{a}''],
       Groups = [] \<rparr>"

definition sameNameExample :: Disk where
  "sameNameExample =
     \<lparr> containersFile = None,
       sessionFile = Some
         \<lparr> Spaces = [exampleWorkspace ''{a}'' ''Work'', exampleWorkspace ''{b}'' ''Work''],
           Tabs = [], Folders = [], Groups = [] \<rparr> \<rparr>"

definition freshDisk :: Disk where
  "freshDisk = \<lparr> containersFile = None, sessionFile = None \<rparr>"

definition workExample :: ArcData where
  "workExample = exampleArcData [exampleSpace ''s1'' ''Work'' [] None] []"

section \<open>Codec: round trip\<close>

lemma Uint32_PutUint32: "Uint32 (PutUint32 v) = v"
proof (rule bit_word_eqI)
  fix n :: nat
  assume "n < LENGTH(32)"
  then consider "n < 8" | "8 \<le> n" "n < 16" | "16 \<le> n" "n < 24" | "24 \<le> n" "n < 32"
    by fastforce
  then show "bit (Uint32 (PutUint32 v)) n = bit v n"
    by cases (auto simp: Uint32_def PutUint32_def bit_simps)
qed

lemma length_PutUint32: "length (PutUint32 v) = 4"
  by (simp add: PutUint32_def)

lemma length_headerMagic: "length headerMagic = 8"
  by (simp add: headerMagic_def)

lemma Decompress_frame:
  "Decompress lib (headerMagic @ PutUint32 v @ c) =
     (case UncompressBlock lib c (unat v) of
        None \<Rightarrow> Inl LZ4DecompressionFailed
      | Some out \<Rightarrow> if length out \<le> unat v then Inr out else Inl SliceBoundsOutOfRange)"
  by (simp add: Decompress_def headerSize_def sizeBytes_def length_headerMagic
      length_PutUint32 Uint32_PutUint32)

text \<open>
  C1 (as amended). For every byte sequence \<open>x\<close> shorter than \<open>2^32\<close> bytes, the empty one
  included, on which the LZ4 block library round-trips (\<open>CompressBlock\<close> succeeds within
  its buffer and \<open>UncompressBlock\<close> of its output into a buffer of \<open>len x\<close> bytes gives
  \<open>x\<close> back), \<open>Compress\<close> succeeds and \<open>Decompress\<close> of its output succeeds and returns
  exactly \<open>x\<close>.
\<close>

theorem Decompress_Compress_roundtrip:
  assumes "length x < 2 ^ 32"
    and "CompressBlock lib x (CompressBlockBound lib (length x)) = Some c"
    and "length c \<le> CompressBlockBound lib (length x)"
    and "UncompressBlock lib c (length x) = Some x"
  shows "\<exists>y. Compress lib x = Inr y \<and> Decompress lib y = Inr x"
proof -
  have u: "unat (word_of_nat (length x) :: 32 word) = length x"
    using assms(1) by (simp add: unat_of_nat)
  have "Compress lib x = Inr (headerMagic @ PutUint32 (word_of_nat (length x)) @ c)"
    using assms(2,3) by (simp add: Compress_def)
  moreover have "Decompress lib (headerMagic @ PutUint32 (word_of_nat (length x)) @ c) = Inr x"
    using assms(4) by (simp add: Decompress_frame u)
  ultimately show ?thesis by simp
qed

theorem Decompress_Compress_roundtrip_witness:
  "\<exists>y. Compress stored_lz4 [0x7B, 0x7D] = Inr y \<and> Decompress stored_lz4 y = Inr [0x7B, 0x7D]"
  using Decompress_Compress_roundtrip [of "[0x7B, 0x7D]" stored_lz4 "[0x7B, 0x7D]"]
  by (simp add: stored_lz4_def)

text \<open>
  C1 as stated fails on a payload of \<open>2^32\<close> bytes: \<^verbatim>\<open>uint32(len(data))\<close> wraps to 0, so
  \<open>Decompress\<close> offers the block decoder an empty buffer and cannot return the payload,
  although the block codec itself round-trips on it.
\<close>

theorem Decompress_Compress_counterexample:
  "CompressBlock stored_lz4 (replicate 4294967296 0)
      (CompressBlockBound stored_lz4 (length (replicate 4294967296 (0::byte))))
     = Some (replicate 4294967296 0)
   \<and> UncompressBlock stored_lz4 (replicate 4294967296 0)
        (length (replicate 4294967296 (0::byte))) = Some (replicate 4294967296 0)
   \<and> Compress stored_lz4 (replicate 4294967296 0)
       = Inr (headerMagic @ PutUint32 0 @ replicate 4294967296 0)
   \<and> Decompress stored_lz4 (headerMagic @ PutUint32 0 @ replicate 4294967296 0)
       = Inl LZ4DecompressionFailed"
proof -
  have z: "(4294967296 :: 32 word) = 0"
    by simp
  show ?thesis
    by (simp add: Decompress_frame Compress_def stored_lz4_def z)
qed

section \<open>Registry write: container validity\<close>

lemma cleanIdentities_filter:
  "cleanIdentities cs = filter (\<lambda>c. \<not> Public c \<or> HasValidUserContextID c) cs"
  by (induction cs) auto

text \<open>
  C5. The registry write step never fails because of an invalid entry (it returns an
  error only when the file write itself fails). The persisted identities are the given
  ones, in order, without the public entries whose id is absent, zero or negative:
  non-public entries and public entries with a positive id are kept unchanged, and no
  persisted identity is public with an absent or non-positive id.
\<close>

theorem writeContainers_valid:
  "\<exists>data'. writeContainers True data = Inr data'
     \<and> Identities data' = filter (\<lambda>c. \<not> Public c \<or> (\<exists>i. ContainerIdentity.UserContextID c = Some i \<and> 0 < i))
                            (Identities data)
     \<and> (\<forall>c \<in> set (Identities data').
           \<not> (Public c \<and> (ContainerIdentity.UserContextID c = None \<or> (\<exists>i. ContainerIdentity.UserContextID c = Some i \<and> i \<le> 0))))
     \<and> Version data' = Version data
     \<and> LastUserContextID data' = LastUserContextID data"
proof -
  have v: "HasValidUserContextID c = (\<exists>i. ContainerIdentity.UserContextID c = Some i \<and> 0 < i)" for c
    by (cases "ContainerIdentity.UserContextID c") (simp_all add: HasValidUserContextID_def)
  have "(\<forall>c \<in> set (cleanIdentities (Identities data)).
           \<not> (Public c \<and> (ContainerIdentity.UserContextID c = None \<or> (\<exists>i. ContainerIdentity.UserContextID c = Some i \<and> i \<le> 0))))"
    by (auto simp: cleanIdentities_filter v)
  then show ?thesis
    by (simp add: writeContainers_def cleanIdentities_filter v)
qed

theorem writeContainers_valid_witness:
  "\<exists>data'. writeContainers True
       \<lparr> Version = 5, LastUserContextID = Some 2,
         Identities =
           [\<lparr> ContainerIdentity.UserContextID = None, ContainerIdentity.Name = ''Broken'', ContainerIdentity.Icon = ''circle'', ContainerIdentity.Color = ''blue'',
              Public = True, L10nID = [], AccessKey = [] \<rparr>,
            \<lparr> ContainerIdentity.UserContextID = Some 2, ContainerIdentity.Name = ''Work'', ContainerIdentity.Icon = ''briefcase'', ContainerIdentity.Color = ''red'',
              Public = True, L10nID = [], AccessKey = [] \<rparr>,
            \<lparr> ContainerIdentity.UserContextID = None, ContainerIdentity.Name = ''Internal'', ContainerIdentity.Icon = [], ContainerIdentity.Color = [],
              Public = False, L10nID = [], AccessKey = [] \<rparr>] \<rparr> = Inr data'
     \<and> Identities data' =
           [\<lparr> ContainerIdentity.UserContextID = Some 2, ContainerIdentity.Name = ''Work'', ContainerIdentity.Icon = ''briefcase'', ContainerIdentity.Color = ''red'',
              Public = True, L10nID = [], AccessKey = [] \<rparr>,
            \<lparr> ContainerIdentity.UserContextID = None, ContainerIdentity.Name = ''Internal'', ContainerIdentity.Icon = [], ContainerIdentity.Color = [],
              Public = False, L10nID = [], AccessKey = [] \<rparr>]"
  using writeContainers_valid [of "\<lparr> Version = 5, LastUserContextID = Some 2,
         Identities =
           [\<lparr> ContainerIdentity.UserContextID = None, ContainerIdentity.Name = ''Broken'', ContainerIdentity.Icon = ''circle'', ContainerIdentity.Color = ''blue'',
              Public = True, L10nID = [], AccessKey = [] \<rparr>,
            \<lparr> ContainerIdentity.UserContextID = Some 2, ContainerIdentity.Name = ''Work'', ContainerIdentity.Icon = ''briefcase'', ContainerIdentity.Color = ''red'',
              Public = True, L10nID = [], AccessKey = [] \<rparr>,
            \<lparr> ContainerIdentity.UserContextID = None, ContainerIdentity.Name = ''Internal'', ContainerIdentity.Icon = [], ContainerIdentity.Color = [],
              Public = False, L10nID = [], AccessKey = [] \<rparr>] \<rparr>"]
  by auto

section \<open>The walk over the items\<close>

lemma insert_preserves:
  assumes folder: "\<And>rt a arcItem p st. A rt a \<Longrightarrow> I st \<Longrightarrow> I (snd (createFolder rt a arcItem p st))"
    and tab: "\<And>rt a arcItem p st. A rt a \<Longrightarrow> I st \<Longrightarrow> I (createTab rt a arcItem p st)"
  shows "insertItemWithChildren rt a fuel arcItem parentFolderID st = Some (n, st') \<Longrightarrow> A rt a \<Longrightarrow> I st \<Longrightarrow> I st'"
    and "insertChildren rt a fuel ids parentFolderID st = Some (n, st') \<Longrightarrow> A rt a \<Longrightarrow> I st \<Longrightarrow> I st'"
proof (induction rt a fuel arcItem parentFolderID st and rt a fuel ids parentFolderID st
    arbitrary: n st' and n st' rule: insertItemWithChildren_insertChildren.induct)
  case (1 rt a arcItem parentFolderID st)
  then show ?case by simp
next
  case (2 rt a fuel arcItem parentFolderID st)
  show ?case
  proof (cases "isArcContainer arcItem")
    case True
    with 2 show ?thesis by simp
  next
    case False
    show ?thesis
    proof (cases "length (ChildrenIds arcItem) > 0")
      case True
      obtain fid st1 where cf: "createFolder rt a arcItem parentFolderID st = (fid, st1)"
        by (cases "createFolder rt a arcItem parentFolderID st")
      from "2.prems"(1) False True cf obtain m where
        ch: "insertChildren rt a fuel (ChildrenIds arcItem) fid st1 = Some (m, st')"
        by (auto split: option.splits)
      have "I st1" using folder [OF "2.prems"(2,3), of arcItem parentFolderID] unfolding cf by simp
      from "2.IH"(2) [OF False True cf [symmetric] ch "2.prems"(2) this] show ?thesis .
    next
      case nf: False
      with False "2.prems" tab show ?thesis by auto
    qed
  qed
next
  case (3 rt a fuel parentFolderID st)
  then show ?case by simp
next
  case (4 rt a fuel childID rest parentFolderID st)
  show ?case
  proof (cases "itemsMap a childID")
    case None
    with 4 show ?thesis by simp
  next
    case (Some child)
    from "4.prems"(1) Some obtain n1 st1 m where
      a1: "insertItemWithChildren rt a fuel child parentFolderID st = Some (n1, st1)"
      and a2: "insertChildren rt a fuel rest parentFolderID st1 = Some (m, st')"
      by (auto split: option.splits)
    have "I st1" using "4.IH"(2) [OF Some a1 "4.prems"(2,3)] .
    from "4.IH"(3) [OF Some a1 refl a2 "4.prems"(2) this] show ?thesis .
  qed
qed

lemma insertRootItems_preserves:
  assumes folder: "\<And>rt a arcItem p st. A rt a \<Longrightarrow> I st \<Longrightarrow> I (snd (createFolder rt a arcItem p st))"
    and tab: "\<And>rt a arcItem p st. A rt a \<Longrightarrow> I st \<Longrightarrow> I (createTab rt a arcItem p st)"
  shows "insertRootItems rt a fuel roots st = Some (n, st') \<Longrightarrow> A rt a \<Longrightarrow> I st \<Longrightarrow> I st'"
proof (induction roots arbitrary: st n)
  case Nil
  then show ?case by simp
next
  case (Cons r roots)
  from Cons.prems(1) obtain n1 st1 m where
    a1: "insertItemWithChildren rt a fuel r [] st = Some (n1, st1)"
    and a2: "insertRootItems rt a fuel roots st1 = Some (m, st')"
    by (auto split: option.splits)
  have "I st1"
    using insert_preserves(1) [of A I, OF folder tab a1 Cons.prems(2,3)] by simp
  from Cons.IH [OF a2 Cons.prems(2) this] show ?case .
qed

lemma createItems_preserves:
  assumes folder: "\<And>rt a arcItem p st. A rt a \<Longrightarrow> I st \<Longrightarrow> I (snd (createFolder rt a arcItem p st))"
    and tab: "\<And>rt a arcItem p st. A rt a \<Longrightarrow> I st \<Longrightarrow> I (createTab rt a arcItem p st)"
    and args: "\<And>sp. A rt (insertArgs rt sp im uuids cd)"
  shows "createItems rt fuel im uuids cd spaces st = Some (n, st') \<Longrightarrow> I st \<Longrightarrow> I st'"
proof (induction spaces arbitrary: st n)
  case Nil
  then show ?case by simp
next
  case (Cons sp spaces)
  from Cons.prems(1) obtain n1 st1 m where
    a1: "insertRootItems rt (insertArgs rt sp im uuids cd) fuel (getRootItemsForSpace sp im) st
           = Some (n1, st1)"
    and a2: "createItems rt fuel im uuids cd spaces st1 = Some (m, st')"
    by (auto split: option.splits)
  have "I st1"
    using insertRootItems_preserves [of A I, OF folder tab a1 args Cons.prems(2)] by simp
  from Cons.IH [OF a2 this] show ?case .
qed



lemma doImport_InrE:
  assumes "doImport rt fuel arcData zs cd = Some (Inr (res, zs', cd'))"
  obtains sidebar mainContainer profiles uuids k st' where
    "Sidebar arcData = Some sidebar"
    "2 \<le> length (Containers sidebar)"
    "Containers sidebar ! 1 = Some mainContainer"
    "allocateProfiles rt (parseArcSpaces (ArcContainer.Spaces mainContainer)) cd = (profiles, cd')"
    "createItems rt fuel (buildItemsMap (parseArcItems (Items mainContainer)) Map.empty) uuids cd'
       (parseArcSpaces (ArcContainer.Spaces mainContainer))
       ((spacesProcessed rt profiles (parseArcSpaces (ArcContainer.Spaces mainContainer)) zs)
          \<lparr>uuidCount := k\<rparr>) = Some (ItemsImported res, st')"
    "zs' = zenSession st'"
  using assms unfolding doImport_def
  by (auto simp: Let_def split: option.splits if_splits prod.splits)

lemma sessionBeforeItems_eq:
  assumes "Sidebar arcData = Some sidebar" "2 \<le> length (Containers sidebar)"
    "Containers sidebar ! 1 = Some mainContainer"
    "allocateProfiles rt (parseArcSpaces (ArcContainer.Spaces mainContainer)) cd = (profiles, cd')"
  shows "sessionBeforeItems rt arcData zs cd =
    zenSession (spacesProcessed rt profiles (parseArcSpaces (ArcContainer.Spaces mainContainer)) zs)"
  using assms by (simp add: sessionBeforeItems_def)

lemma createFolder_session:
  "zenSession (snd (createFolder rt a arcItem p st)) =
     (zenSession st)\<lparr> Tabs := Tabs (zenSession st) @ [anchorTab rt a st],
                       Folders := Folders (zenSession st) @ [newFolder rt a arcItem p st],
                       Groups := Groups (zenSession st) @ [newGroup a arcItem st] \<rparr>"
  by (simp add: createFolder_def Let_def)

lemma createTab_session:
  "zenSession (createTab rt a arcItem p st) =
     (zenSession st)\<lparr> Tabs := Tabs (zenSession st) @ [newTab rt a arcItem p st] \<rparr>"
  by (simp add: createTab_def)

lemma newFolder_anchored:
  "anchoredFolder (zenSession (snd (createFolder rt a arcItem p st))) (newFolder rt a arcItem p st)"
  by (simp add: createFolder_session anchoredFolder_def anchorTab_def newFolder_def newGroup_def
      Let_def)

lemma anchoredFolder_mono:
  assumes "anchoredFolder zs f" "set (Tabs zs) \<subseteq> set (Tabs zs')" "set (Groups zs) \<subseteq> set (Groups zs')"
  shows "anchoredFolder zs' f"
  using assms unfolding anchoredFolder_def by blast

lemma anchorInv_createFolder:
  assumes "anchorInv old st"
  shows "anchorInv old (snd (createFolder rt a arcItem p st))"
proof -
  let ?st' = "snd (createFolder rt a arcItem p st)"
  from assms obtain new where n: "Folders (zenSession st) = old @ new"
    and an: "\<forall>f \<in> set new. anchoredFolder (zenSession st) f"
    unfolding anchorInv_def by blast
  have "Folders (zenSession ?st') = old @ (new @ [newFolder rt a arcItem p st])"
    by (simp add: createFolder_session n)
  moreover have "\<forall>f \<in> set (new @ [newFolder rt a arcItem p st]). anchoredFolder (zenSession ?st') f"
  proof
    fix f assume "f \<in> set (new @ [newFolder rt a arcItem p st])"
    then consider "f \<in> set new" | "f = newFolder rt a arcItem p st" by auto
    then show "anchoredFolder (zenSession ?st') f"
    proof cases
      case 1
      with an have "anchoredFolder (zenSession st) f" by blast
      then show ?thesis
        by (rule anchoredFolder_mono) (auto simp: createFolder_session)
    next
      case 2
      then show ?thesis by (simp add: newFolder_anchored)
    qed
  qed
  ultimately show ?thesis unfolding anchorInv_def by blast
qed

lemma anchorInv_createTab:
  assumes "anchorInv old st"
  shows "anchorInv old (createTab rt a arcItem p st)"
proof -
  from assms obtain new where n: "Folders (zenSession st) = old @ new"
    and an: "\<forall>f \<in> set new. anchoredFolder (zenSession st) f"
    unfolding anchorInv_def by blast
  have "Folders (zenSession (createTab rt a arcItem p st)) = old @ new"
    by (simp add: createTab_session n)
  moreover have "\<forall>f \<in> set new. anchoredFolder (zenSession (createTab rt a arcItem p st)) f"
  proof
    fix f assume "f \<in> set new"
    with an have "anchoredFolder (zenSession st) f" by blast
    then show "anchoredFolder (zenSession (createTab rt a arcItem p st)) f"
      by (rule anchoredFolder_mono) (auto simp: createTab_session)
  qed
  ultimately show ?thesis unfolding anchorInv_def by blast
qed

text \<open>
  C4. When \<open>doImport\<close> returns a session, its folders are the folders left after the purge
  followed by the emitted ones, and every emitted folder is anchored in the returned
  session: some tab with is-empty set has the folder's id as group id and its sync id in
  the folder's anchor-tab id list, and some group has the folder's id, name and collapsed
  state.
\<close>

theorem doImport_anchor_invariant:
  assumes "doImport rt fuel arcData zs cd = Some (Inr (res, zs', cd'))"
  shows "\<exists>new. Folders zs' = Folders (sessionBeforeItems rt arcData zs cd) @ new
           \<and> (\<forall>f \<in> set new. anchoredFolder zs' f)"
proof -
  from assms obtain sidebar mainContainer profiles uuids k st' where
    sb: "Sidebar arcData = Some sidebar"
    and len: "2 \<le> length (Containers sidebar)"
    and mc: "Containers sidebar ! 1 = Some mainContainer"
    and al: "allocateProfiles rt (parseArcSpaces (ArcContainer.Spaces mainContainer)) cd = (profiles, cd')"
    and ci: "createItems rt fuel (buildItemsMap (parseArcItems (Items mainContainer)) Map.empty) uuids cd'
       (parseArcSpaces (ArcContainer.Spaces mainContainer))
       ((spacesProcessed rt profiles (parseArcSpaces (ArcContainer.Spaces mainContainer)) zs)
          \<lparr>uuidCount := k\<rparr>) = Some (ItemsImported res, st')"
    and zs': "zs' = zenSession st'"
    by (rule doImport_InrE)
  let ?st0 = "(spacesProcessed rt profiles (parseArcSpaces (ArcContainer.Spaces mainContainer)) zs)
          \<lparr>uuidCount := k\<rparr>"
  have before: "sessionBeforeItems rt arcData zs cd = zenSession ?st0"
    using sessionBeforeItems_eq [OF sb len mc al] by simp
  have "anchorInv (Folders (zenSession ?st0)) ?st0"
    unfolding anchorInv_def by simp
  then have "anchorInv (Folders (zenSession ?st0)) st'"
    using createItems_preserves [of "\<lambda>rt a. True" "anchorInv (Folders (zenSession ?st0))", OF _ _ _ ci]
      anchorInv_createFolder anchorInv_createTab by blast
  then show ?thesis
    unfolding anchorInv_def before zs' by simp
qed



lemma digit_inj: "a < 10 \<Longrightarrow> b < 10 \<Longrightarrow> digit a = digit b \<Longrightarrow> a = b"
proof -
  assume a: "a < 10" and b: "b < 10" and e: "digit a = digit b"
  have A: "a \<in> {0, 1, 2, 3, 4, 5, 6, 7, 8, 9}" using a by auto
  have B: "b \<in> {0, 1, 2, 3, 4, 5, 6, 7, 8, 9}" using b by auto
  from A B e show ?thesis
    by (auto simp: digit_def)
qed

lemma digits_nonempty: "digits n \<noteq> []"
  by (subst digits.simps) simp

lemma digits_inj: "digits m = digits n \<Longrightarrow> m = n"
proof (induction m arbitrary: n rule: digits.induct)
  case (1 m)
  show ?case
  proof (cases "m < 10")
    case m: True
    show ?thesis
    proof (cases "n < 10")
      case True
      with m "1.prems" show ?thesis
        by (simp add: digits.simps [of m] digits.simps [of n] digit_inj)
    next
      case False
      with m "1.prems" digits_nonempty [of "n div 10"] show ?thesis
        by (simp add: digits.simps [of m] digits.simps [of n] append_eq_Cons_conv)
    qed
  next
    case m: False
    show ?thesis
    proof (cases "n < 10")
      case True
      with m "1.prems" digits_nonempty [of "m div 10"] show ?thesis
        by (simp add: digits.simps [of m] digits.simps [of n] Cons_eq_append_conv)
    next
      case False
      with m "1.prems" have d: "digits (m div 10) = digits (n div 10)"
        and r: "digit (m mod 10) = digit (n mod 10)"
        by (simp_all add: digits.simps [of m] digits.simps [of n])
      from "1.IH" [OF m d] have "m div 10 = n div 10" .
      moreover from r have "m mod 10 = n mod 10"
        by (intro digit_inj) simp_all
      ultimately show ?thesis
        by (metis div_mult_mod_eq)
    qed
  qed
qed

lemma newFolderID_inj: "newFolderID t m = newFolderID t n \<Longrightarrow> m = n"
  by (simp add: newFolderID_def digits_inj)

lemma chainedFrom_snoc:
  "chainedFrom prev (fs @ [f]) =
     (chainedFrom prev fs
      \<and> PrevSiblingInfo f = (if fs = [] then prev else PrevSiblingRef ''group'' (ZenFolder.ID (last fs))))"
  by (induction fs arbitrary: prev) auto

lemma newFolder_fields:
  "ZenFolder.ID (newFolder rt a arcItem p st) = newFolderID (now a) (length (Folders (zenSession st)))"
  "ZenFolder.ParentID (newFolder rt a arcItem p st) = p"
  "PrevSiblingInfo (newFolder rt a arcItem p st) = prevSiblingInfo p st"
  by (simp_all add: newFolder_def Let_def)

lemma createFolder_lastFolderByParent:
  "lastFolderByParent (snd (createFolder rt a arcItem p st)) =
     (lastFolderByParent st)(p \<mapsto> newFolderID (now a) (length (Folders (zenSession st))))"
  by (simp add: createFolder_def Let_def)

lemma chainInv_createFolder:
  assumes t: "now a = t" and inv: "chainInv t k st"
  shows "chainInv t k (snd (createFolder rt a arcItem q st))"
proof -
  let ?fs = "Folders (zenSession st)"
  let ?nf = "newFolder rt a arcItem q st"
  let ?st' = "snd (createFolder rt a arcItem q st)"
  have fs': "Folders (zenSession ?st') = ?fs @ [?nf]"
    by (simp add: createFolder_session)
  from inv have k: "k \<le> length ?fs"
    and ids: "\<And>i. k \<le> i \<Longrightarrow> i < length ?fs \<Longrightarrow> ZenFolder.ID (?fs ! i) = newFolderID t i"
    and ch: "\<And>p. p \<noteq> [] \<Longrightarrow> chainedFrom PrevSiblingNil (siblingsUnder p (drop k ?fs))"
    and lf: "\<And>p. p \<noteq> [] \<Longrightarrow> lastFolderByParent st p = lastSiblingID (siblingsUnder p (drop k ?fs))"
    and root: "\<And>f. f \<in> set (siblingsUnder [] (drop k ?fs)) \<Longrightarrow> PrevSiblingInfo f = PrevSiblingNil"
    unfolding chainInv_def by blast+
  have dr: "drop k (?fs @ [?nf]) = drop k ?fs @ [?nf]"
    using k by simp
  have sib: "siblingsUnder p (drop k (?fs @ [?nf])) =
      siblingsUnder p (drop k ?fs) @ (if q = p then [?nf] else [])" for p
    unfolding dr by (simp add: siblingsUnder_def newFolder_fields)
  have 1: "k \<le> length (?fs @ [?nf])" using k by simp
  have 2: "ZenFolder.ID ((?fs @ [?nf]) ! i) = newFolderID t i"
    if "k \<le> i" "i < length (?fs @ [?nf])" for i
  proof (cases "i < length ?fs")
    case True
    with that ids show ?thesis by (simp add: nth_append)
  next
    case False
    with that have "i = length ?fs" by simp
    then show ?thesis by (simp add: newFolder_fields t)
  qed
  have 3: "chainedFrom PrevSiblingNil (siblingsUnder p (drop k (?fs @ [?nf])))
         \<and> lastFolderByParent ?st' p = lastSiblingID (siblingsUnder p (drop k (?fs @ [?nf])))"
    if p: "p \<noteq> []" for p
  proof (cases "q = p")
    case True
    have "PrevSiblingInfo ?nf =
        (if siblingsUnder p (drop k ?fs) = [] then PrevSiblingNil
         else PrevSiblingRef ''group'' (ZenFolder.ID (last (siblingsUnder p (drop k ?fs)))))"
      using lf [OF p] p True
      by (simp add: newFolder_fields prevSiblingInfo_def lastSiblingID_def)
    with ch [OF p] True show ?thesis
      unfolding sib
      by (simp add: chainedFrom_snoc createFolder_lastFolderByParent lastSiblingID_def
          newFolder_fields)
  next
    case False
    with ch [OF p] lf [OF p] show ?thesis
      unfolding sib
      by (simp add: createFolder_lastFolderByParent)
  qed
  have 4: "PrevSiblingInfo f = PrevSiblingNil"
    if "f \<in> set (siblingsUnder [] (drop k (?fs @ [?nf])))" for f
  proof (cases "f \<in> set (siblingsUnder [] (drop k ?fs))")
    case True
    then show ?thesis by (rule root)
  next
    case False
    with that [unfolded sib] have "f = ?nf" "q = []"
      by (auto split: if_splits)
    then show ?thesis
      by (simp add: newFolder_fields prevSiblingInfo_def)
  qed
  show ?thesis
    unfolding chainInv_def fs' using 1 2 3 4 by blast
qed

lemma chainInv_createTab:
  assumes "chainInv t k st"
  shows "chainInv t k (createTab rt a arcItem q st)"
proof -
  have "Folders (zenSession (createTab rt a arcItem q st)) = Folders (zenSession st)"
    "lastFolderByParent (createTab rt a arcItem q st) = lastFolderByParent st"
    by (simp_all add: createTab_def)
  with assms show ?thesis
    by (simp add: chainInv_def)
qed

lemma find_by_ID:
  assumes "distinct (map ZenFolder.ID fs)" "f \<in> set fs"
  shows "find (\<lambda>g. ZenFolder.ID g = ZenFolder.ID f) fs = Some f"
  using assms by (induction fs) (auto simp: rev_image_eqI)

lemma followPrevSiblings_chain:
  assumes "distinct (map ZenFolder.ID fs)" "set sibs \<subseteq> set fs"
    "chainedFrom PrevSiblingNil sibs" "sibs \<noteq> []"
  shows "followPrevSiblings (length sibs) fs (last sibs) = Some (rev (map ZenFolder.ID sibs))"
  using assms(2-)
proof (induction sibs rule: rev_induct)
  case Nil
  then show ?case by simp
next
  case (snoc x xs)
  show ?case
  proof (cases "xs = []")
    case True
    with snoc.prems show ?thesis by simp
  next
    case False
    from snoc.prems(2) False have c: "chainedFrom PrevSiblingNil xs"
      and p: "PrevSiblingInfo x = PrevSiblingRef ''group'' (ZenFolder.ID (last xs))"
      by (simp_all add: chainedFrom_snoc)
    from snoc.prems(1) False have "last xs \<in> set fs" by auto
    then have f: "find (\<lambda>g. ZenFolder.ID g = ZenFolder.ID (last xs)) fs = Some (last xs)"
      using assms(1) by (simp add: find_by_ID)
    from snoc.IH [OF _ c False] snoc.prems(1)
    have "followPrevSiblings (length xs) fs (last xs) = Some (rev (map ZenFolder.ID xs))"
      by simp
    with p f show ?thesis by simp
  qed
qed

lemma processSpace_lastFolderByParent:
  "lastFolderByParent (processSpace rt profiles sp st) = lastFolderByParent st"
  by (simp add: processSpace_def Let_def split: option.splits)

lemma processSpaces_lastFolderByParent:
  "lastFolderByParent (processSpaces rt profiles sps st) = lastFolderByParent st"
  by (induction sps arbitrary: st) (simp_all add: processSpace_lastFolderByParent)

lemma ids_distinct:
  assumes "\<And>i. i < length (new :: ZenFolder list) \<Longrightarrow> ZenFolder.ID (new ! i) = newFolderID t (k + i)"
  shows "distinct (map ZenFolder.ID new)"
proof -
  have "i = j" if "i < length new" "j < length new" "ZenFolder.ID (new ! i) = ZenFolder.ID (new ! j)" for i j
    using that assms newFolderID_inj [of t "k + i" "k + j"] by simp
  then show ?thesis
    by (simp add: distinct_conv_nth) metis
qed

lemma sourcesUnder_Nil: "sourcesUnder p [] [] = []"
  by (simp add: sourcesUnder_def)

lemma sourcesUnder_none:
  "\<forall>f \<in> set fs. ZenFolder.ParentID f \<noteq> p \<Longrightarrow> sourcesUnder p fs src = []"
  unfolding sourcesUnder_def
  by (auto simp: filter_empty_conv dest: set_zip_leftD)

lemma sourcesUnder_append:
  "length fs = length src \<Longrightarrow>
     sourcesUnder p (fs @ gs) (src @ src') = sourcesUnder p fs src @ sourcesUnder p gs src'"
  by (simp add: sourcesUnder_def)

lemma sourcesUnder_Cons:
  "sourcesUnder p (f # fs) (s # src) =
     (if ZenFolder.ParentID f = p then fst s # sourcesUnder p fs src else sourcesUnder p fs src)"
  by (simp add: sourcesUnder_def)

lemma emitted_Nil: "emitted t p k [] [] []"
  by (simp add: emitted_def sourcesUnder_def)

lemma emitted_ids:
  "emitted t p k new src d \<Longrightarrow> f \<in> set new \<Longrightarrow> \<exists>j \<ge> k. ZenFolder.ID f = newFolderID t j \<and> j < k + length new"
proof -
  assume e: "emitted t p k new src d" and "f \<in> set new"
  then obtain i where i: "i < length new" "f = new ! i"
    by (auto simp: in_set_conv_nth)
  with e have "ZenFolder.ID f = newFolderID t (k + i)"
    unfolding emitted_def by simp
  with i show ?thesis
    by (intro exI [of _ "k + i"]) simp
qed

lemma emitted_append:
  assumes e1: "emitted t p k new1 src1 d1"
    and e2: "emitted t p (k + length new1) new2 src2 d2"
    and fr: "fresh t p k"
  shows "emitted t p k (new1 @ new2) (src1 @ src2) (d1 @ d2)"
proof -
  from e1 have l1: "length new1 = length src1"
    and i1: "\<And>j. j < length new1 \<Longrightarrow> ZenFolder.ID (new1 ! j) = newFolderID t (k + j)
             \<and> ZenFolder.Name (new1 ! j) = itemTitle (fst (src1 ! j))"
    and p1: "\<And>f. f \<in> set new1 \<Longrightarrow> ZenFolder.ParentID f = p \<or> ZenFolder.ParentID f \<in> ZenFolder.ID ` set new1"
    and s1: "sourcesUnder p new1 src1 = d1"
    and c1: "\<And>j. j < length new1 \<Longrightarrow> sourcesUnder (ZenFolder.ID (new1 ! j)) new1 src1 = snd (src1 ! j)"
    unfolding emitted_def by blast+
  from e2 have l2: "length new2 = length src2"
    and i2: "\<And>j. j < length new2 \<Longrightarrow> ZenFolder.ID (new2 ! j) = newFolderID t (k + length new1 + j)
             \<and> ZenFolder.Name (new2 ! j) = itemTitle (fst (src2 ! j))"
    and p2: "\<And>f. f \<in> set new2 \<Longrightarrow> ZenFolder.ParentID f = p \<or> ZenFolder.ParentID f \<in> ZenFolder.ID ` set new2"
    and s2: "sourcesUnder p new2 src2 = d2"
    and c2: "\<And>j. j < length new2 \<Longrightarrow> sourcesUnder (ZenFolder.ID (new2 ! j)) new2 src2 = snd (src2 ! j)"
    unfolding emitted_def by blast+
  have id1: "\<exists>j. k \<le> j \<and> j < k + length new1 \<and> ZenFolder.ID f = newFolderID t j" if "f \<in> set new1" for f
    using emitted_ids [OF e1 that] by blast
  have id2: "\<exists>j. k + length new1 \<le> j \<and> ZenFolder.ID f = newFolderID t j" if "f \<in> set new2" for f
    using emitted_ids [OF e2 that] by blast
  have np: "ZenFolder.ID f \<noteq> p" if "f \<in> set new1 \<union> set new2" for f
    using that id1 [of f] id2 [of f] fr unfolding fresh_def by (metis Un_iff le_add1 le_trans)
  have x12: "ZenFolder.ID f \<noteq> ZenFolder.ID g" if "f \<in> set new1" "g \<in> set new2" for f g
    using id1 [OF that(1)] id2 [OF that(2)] newFolderID_inj [of t] by (metis not_le)
  have A: "sourcesUnder (ZenFolder.ID f) new2 src2 = []" if "f \<in> set new1" for f
  proof (rule sourcesUnder_none, rule ballI)
    fix g assume g: "g \<in> set new2"
    from p2 [OF g] show "ZenFolder.ParentID g \<noteq> ZenFolder.ID f"
    proof
      assume "ZenFolder.ParentID g = p"
      with np [of f] that show ?thesis by auto
    next
      assume "ZenFolder.ParentID g \<in> ZenFolder.ID ` set new2"
      then obtain h where h: "h \<in> set new2" "ZenFolder.ParentID g = ZenFolder.ID h" by auto
      from x12 [OF that h(1)] h(2) show ?thesis by simp
    qed
  qed
  have B: "sourcesUnder (ZenFolder.ID g) new1 src1 = []" if "g \<in> set new2" for g
  proof (rule sourcesUnder_none, rule ballI)
    fix f assume f: "f \<in> set new1"
    from p1 [OF f] show "ZenFolder.ParentID f \<noteq> ZenFolder.ID g"
    proof
      assume "ZenFolder.ParentID f = p"
      with np [of g] that show ?thesis by auto
    next
      assume "ZenFolder.ParentID f \<in> ZenFolder.ID ` set new1"
      then obtain h where h: "h \<in> set new1" "ZenFolder.ParentID f = ZenFolder.ID h" by auto
      from x12 [OF h(1) that] h(2) show ?thesis by simp
    qed
  qed
  have 1: "length (new1 @ new2) = length (src1 @ src2)"
    using l1 l2 by simp
  have 2: "ZenFolder.ID ((new1 @ new2) ! j) = newFolderID t (k + j)
             \<and> ZenFolder.Name ((new1 @ new2) ! j) = itemTitle (fst ((src1 @ src2) ! j))"
    if "j < length (new1 @ new2)" for j
  proof (cases "j < length new1")
    case True
    with i1 [OF True] l1 show ?thesis by (simp add: nth_append)
  next
    case False
    with that have "j - length new1 < length new2" by simp
    from i2 [OF this] False l1 show ?thesis by (simp add: nth_append)
  qed
  have 3: "ZenFolder.ParentID f = p \<or> ZenFolder.ParentID f \<in> ZenFolder.ID ` set (new1 @ new2)"
    if "f \<in> set (new1 @ new2)" for f
    using that p1 [of f] p2 [of f] by auto
  have 4: "sourcesUnder p (new1 @ new2) (src1 @ src2) = d1 @ d2"
    using l1 s1 s2 by (simp add: sourcesUnder_append)
  have 5: "sourcesUnder (ZenFolder.ID ((new1 @ new2) ! j)) (new1 @ new2) (src1 @ src2)
      = snd ((src1 @ src2) ! j)" if "j < length (new1 @ new2)" for j
  proof (cases "j < length new1")
    case True
    then have "new1 ! j \<in> set new1" by simp
    from A [OF this] c1 [OF True] True l1 show ?thesis
      by (simp add: nth_append sourcesUnder_append)
  next
    case False
    with that have j: "j - length new1 < length new2" by simp
    then have "new2 ! (j - length new1) \<in> set new2" by simp
    from B [OF this] c2 [OF j] False l1 show ?thesis
      by (simp add: nth_append sourcesUnder_append)
  qed
  show ?thesis
    unfolding emitted_def using 1 2 3 4 5 by blast
qed

lemma emitted_Cons:
  assumes f: "ZenFolder.ID f = newFolderID t k" "ZenFolder.Name f = itemTitle item"
      "ZenFolder.ParentID f = p"
    and e: "emitted t (newFolderID t k) (Suc k) new src d"
    and fr: "fresh t p k"
  shows "emitted t p k (f # new) ((item, d) # src) [item]"
proof -
  from e have l: "length new = length src"
    and i: "\<And>j. j < length new \<Longrightarrow> ZenFolder.ID (new ! j) = newFolderID t (Suc k + j)
             \<and> ZenFolder.Name (new ! j) = itemTitle (fst (src ! j))"
    and p: "\<And>g. g \<in> set new \<Longrightarrow> ZenFolder.ParentID g = newFolderID t k
              \<or> ZenFolder.ParentID g \<in> ZenFolder.ID ` set new"
    and s: "sourcesUnder (newFolderID t k) new src = d"
    and c: "\<And>j. j < length new \<Longrightarrow> sourcesUnder (ZenFolder.ID (new ! j)) new src = snd (src ! j)"
    unfolding emitted_def by blast+
  have idn: "\<exists>j. Suc k \<le> j \<and> ZenFolder.ID g = newFolderID t j" if "g \<in> set new" for g
    using emitted_ids [OF e that] by blast
  have pk: "p \<noteq> newFolderID t k"
    using fr unfolding fresh_def by blast
  have pn: "ZenFolder.ID g \<noteq> p" if "g \<in> set new" for g
    using idn [OF that] fr unfolding fresh_def by (metis Suc_leD)
  have none: "sourcesUnder p new src = []"
  proof (rule sourcesUnder_none, rule ballI)
    fix g assume g: "g \<in> set new"
    from p [OF g] show "ZenFolder.ParentID g \<noteq> p"
    proof
      assume "ZenFolder.ParentID g = newFolderID t k"
      with pk show ?thesis by simp
    next
      assume "ZenFolder.ParentID g \<in> ZenFolder.ID ` set new"
      then obtain h where h: "h \<in> set new" "ZenFolder.ParentID g = ZenFolder.ID h" by auto
      from pn [OF h(1)] h(2) show ?thesis by simp
    qed
  qed
  have 1: "length (f # new) = length ((item, d) # src)"
    using l by simp
  have 2: "ZenFolder.ID ((f # new) ! j) = newFolderID t (k + j)
             \<and> ZenFolder.Name ((f # new) ! j) = itemTitle (fst (((item, d) # src) ! j))"
    if "j < length (f # new)" for j
    using that f i [of "j - 1"] by (cases j) simp_all
  have 3: "ZenFolder.ParentID g = p \<or> ZenFolder.ParentID g \<in> ZenFolder.ID ` set (f # new)"
    if "g \<in> set (f # new)" for g
    using that f p [of g] by auto
  have 4: "sourcesUnder p (f # new) ((item, d) # src) = [item]"
    using f none by (simp add: sourcesUnder_Cons)
  have 5: "sourcesUnder (ZenFolder.ID ((f # new) ! j)) (f # new) ((item, d) # src)
      = snd (((item, d) # src) ! j)" if "j < length (f # new)" for j
  proof (cases j)
    case 0
    with f pk s show ?thesis by (simp add: sourcesUnder_Cons)
  next
    case (Suc j')
    with that have j': "j' < length new" by simp
    then have "new ! j' \<in> set new" by simp
    from pn [OF this] c [OF j'] f Suc show ?thesis
      by (auto simp: sourcesUnder_Cons)
  qed
  show ?thesis
    unfolding emitted_def using 1 2 3 4 5 by blast
qed

lemma fresh_mono: "fresh t p k \<Longrightarrow> k \<le> k' \<Longrightarrow> fresh t p k'"
  unfolding fresh_def by auto

lemma fresh_root: "fresh t [] k"
  unfolding fresh_def newFolderID_def by simp

lemma fresh_newFolderID: "fresh t (newFolderID t k) (Suc k)"
  unfolding fresh_def using newFolderID_inj [of t k] by auto

lemma insert_emitted:
  shows "insertItemWithChildren rt a fuel arcItem p st = Some (n, st')
      \<Longrightarrow> fresh (now a) p (length (Folders (zenSession st)))
      \<Longrightarrow> \<exists>new. Folders (zenSession st') = Folders (zenSession st) @ new
            \<and> emitted (now a) p (length (Folders (zenSession st))) new
                (foldersOf (itemsMap a) fuel arcItem) (folderOf (itemsMap a) fuel arcItem)"
    and "insertChildren rt a fuel ids p st = Some (n, st')
      \<Longrightarrow> fresh (now a) p (length (Folders (zenSession st)))
      \<Longrightarrow> \<exists>new. Folders (zenSession st') = Folders (zenSession st) @ new
            \<and> emitted (now a) p (length (Folders (zenSession st))) new
                (foldersIn (itemsMap a) fuel ids) (subFolders (itemsMap a) fuel ids)"
proof (induction rt a fuel arcItem p st and rt a fuel ids p st
    arbitrary: n st' and n st' rule: insertItemWithChildren_insertChildren.induct)
  case (1 rt a arcItem parentFolderID st)
  then show ?case by simp
next
  case (2 rt a fuel arcItem parentFolderID st)
  let ?k = "length (Folders (zenSession st))"
  show ?case
  proof (cases "isArcContainer arcItem")
    case True
    with "2.prems" have "insertChildren rt a fuel (ChildrenIds arcItem) parentFolderID st = Some (n, st')"
      by simp
    from "2.IH"(1) [OF True this "2.prems"(2)] True show ?thesis by simp
  next
    case False
    show ?thesis
    proof (cases "length (ChildrenIds arcItem) > 0")
      case True
      obtain fid st1 where cf: "createFolder rt a arcItem parentFolderID st = (fid, st1)"
        by (cases "createFolder rt a arcItem parentFolderID st")
      from "2.prems"(1) False True cf obtain m where
        ch: "insertChildren rt a fuel (ChildrenIds arcItem) fid st1 = Some (m, st')"
        by (auto split: option.splits)
      let ?f = "newFolder rt a arcItem parentFolderID st"
      from cf have fid: "fid = newFolderID (now a) ?k"
        and st1: "Folders (zenSession st1) = Folders (zenSession st) @ [?f]"
        by (auto simp: createFolder_def Let_def)
      have fr1: "fresh (now a) fid (length (Folders (zenSession st1)))"
        unfolding fid st1 using fresh_newFolderID [of "now a" ?k] by simp
      from "2.IH"(2) [OF False True cf [symmetric] ch fr1] obtain new where
        new: "Folders (zenSession st') = Folders (zenSession st1) @ new"
        and e: "emitted (now a) fid (length (Folders (zenSession st1))) new
                (foldersIn (itemsMap a) fuel (ChildrenIds arcItem))
                (subFolders (itemsMap a) fuel (ChildrenIds arcItem))"
        by blast
      from e have e': "emitted (now a) (newFolderID (now a) ?k) (Suc ?k) new
                (foldersIn (itemsMap a) fuel (ChildrenIds arcItem))
                (subFolders (itemsMap a) fuel (ChildrenIds arcItem))"
        unfolding fid st1 by simp
      have ff: "ZenFolder.ID ?f = newFolderID (now a) ?k" "ZenFolder.Name ?f = itemTitle arcItem"
        "ZenFolder.ParentID ?f = parentFolderID"
        by (simp_all add: newFolder_def Let_def)
      from emitted_Cons [OF ff e' "2.prems"(2)] new st1 False True show ?thesis
        by simp
    next
      case nf: False
      with False "2.prems" have "st' = createTab rt a arcItem parentFolderID st" by auto
      then have "Folders (zenSession st') = Folders (zenSession st)"
        by (simp add: createTab_def)
      with nf False show ?thesis by (simp add: emitted_Nil)
    qed
  qed
next
  case (3 rt a fuel parentFolderID st)
  then show ?case by (simp add: emitted_Nil)
next
  case (4 rt a fuel childID rest parentFolderID st)
  show ?case
  proof (cases "itemsMap a childID")
    case None
    with "4.prems" have "insertChildren rt a fuel rest parentFolderID st = Some (n, st')"
      by simp
    from "4.IH"(1) [OF None this "4.prems"(2)] None show ?thesis by simp
  next
    case (Some child)
    from "4.prems"(1) Some obtain n1 st1 m where
      a1: "insertItemWithChildren rt a fuel child parentFolderID st = Some (n1, st1)"
      and a2: "insertChildren rt a fuel rest parentFolderID st1 = Some (m, st')"
      by (auto split: option.splits)
    from "4.IH"(2) [OF Some a1 "4.prems"(2)] obtain new1 where
      n1: "Folders (zenSession st1) = Folders (zenSession st) @ new1"
      and e1: "emitted (now a) parentFolderID (length (Folders (zenSession st))) new1
                (foldersOf (itemsMap a) fuel child) (folderOf (itemsMap a) fuel child)"
      by blast
    have fr1: "fresh (now a) parentFolderID (length (Folders (zenSession st1)))"
      using "4.prems"(2) by (rule fresh_mono) (simp add: n1)
    from "4.IH"(3) [OF Some a1 refl a2 fr1] obtain new2 where
      n2: "Folders (zenSession st') = Folders (zenSession st1) @ new2"
      and e2: "emitted (now a) parentFolderID (length (Folders (zenSession st1))) new2
                (foldersIn (itemsMap a) fuel rest) (subFolders (itemsMap a) fuel rest)"
      by blast
    from e2 have e2': "emitted (now a) parentFolderID
        (length (Folders (zenSession st)) + length new1) new2
                (foldersIn (itemsMap a) fuel rest) (subFolders (itemsMap a) fuel rest)"
      by (simp add: n1)
    from emitted_append [OF e1 e2' "4.prems"(2)] n1 n2 Some show ?thesis
      by simp
  qed
qed

lemma insertRootItems_emitted:
  "insertRootItems rt a fuel roots st = Some (n, st')
     \<Longrightarrow> \<exists>new d. Folders (zenSession st') = Folders (zenSession st) @ new
            \<and> emitted (now a) [] (length (Folders (zenSession st))) new
                (concat (map (foldersOf (itemsMap a) fuel) roots)) d"
proof (induction roots arbitrary: st n)
  case Nil
  then show ?case by (auto intro!: exI [of _ "[]"] emitted_Nil)
next
  case (Cons r roots)
  from Cons.prems(1) obtain n1 st1 m where
    a1: "insertItemWithChildren rt a fuel r [] st = Some (n1, st1)"
    and a2: "insertRootItems rt a fuel roots st1 = Some (m, st')"
    by (auto split: option.splits)
  from insert_emitted(1) [OF a1 fresh_root] obtain new1 where
    n1: "Folders (zenSession st1) = Folders (zenSession st) @ new1"
    and e1: "emitted (now a) [] (length (Folders (zenSession st))) new1
                (foldersOf (itemsMap a) fuel r) (folderOf (itemsMap a) fuel r)"
    by blast
  from Cons.IH [OF a2] obtain new2 d where
    n2: "Folders (zenSession st') = Folders (zenSession st1) @ new2"
    and e2: "emitted (now a) [] (length (Folders (zenSession st1))) new2
                (concat (map (foldersOf (itemsMap a) fuel) roots)) d"
    by blast
  from e2 have e2': "emitted (now a) [] (length (Folders (zenSession st)) + length new1) new2
                (concat (map (foldersOf (itemsMap a) fuel) roots)) d"
    by (simp add: n1)
  from emitted_append [OF e1 e2' fresh_root] n1 n2 show ?case
    by auto
qed

lemma createItems_emitted:
  "createItems rt fuel im uuids cd spaces st = Some (n, st')
     \<Longrightarrow> \<exists>new d. Folders (zenSession st') = Folders (zenSession st) @ new
            \<and> emitted (timeNow rt) [] (length (Folders (zenSession st))) new
                (concat (map (spaceFolders im fuel) spaces)) d"
proof (induction spaces arbitrary: st n)
  case Nil
  then show ?case by (auto intro!: exI [of _ "[]"] emitted_Nil)
next
  case (Cons sp spaces)
  from Cons.prems(1) obtain n1 st1 m where
    a1: "insertRootItems rt (insertArgs rt sp im uuids cd) fuel (getRootItemsForSpace sp im) st
           = Some (n1, st1)"
    and a2: "createItems rt fuel im uuids cd spaces st1 = Some (m, st')"
    by (auto split: option.splits)
  from insertRootItems_emitted [OF a1] obtain new1 d1 where
    n1: "Folders (zenSession st1) = Folders (zenSession st) @ new1"
    and e1: "emitted (timeNow rt) [] (length (Folders (zenSession st))) new1
                (spaceFolders im fuel sp) d1"
    by (auto simp: insertArgs_def spaceFolders_def)
  from Cons.IH [OF a2] obtain new2 d where
    n2: "Folders (zenSession st') = Folders (zenSession st1) @ new2"
    and e2: "emitted (timeNow rt) [] (length (Folders (zenSession st1))) new2
                (concat (map (spaceFolders im fuel) spaces)) d"
    by blast
  from e2 have e2': "emitted (timeNow rt) [] (length (Folders (zenSession st)) + length new1) new2
                (concat (map (spaceFolders im fuel) spaces)) d"
    by (simp add: n1)
  from emitted_append [OF e1 e2' fresh_root] n1 n2 show ?case
    by auto
qed

lemma siblingsUnder_names:
  "length fs = length src \<Longrightarrow> \<forall>j < length fs. ZenFolder.Name (fs ! j) = itemTitle (fst (src ! j))
     \<Longrightarrow> map ZenFolder.Name (siblingsUnder p fs) = map itemTitle (sourcesUnder p fs src)"
proof (induction fs src rule: list_induct2)
  case Nil
  then show ?case by (simp add: siblingsUnder_def sourcesUnder_def)
next
  case (Cons f fs s src)
  from Cons.prems have "ZenFolder.Name f = itemTitle (fst s)"
    and "\<forall>j < length fs. ZenFolder.Name (fs ! j) = itemTitle (fst (src ! j))"
    by auto
  with Cons.IH show ?case
    by (simp add: siblingsUnder_def sourcesUnder_def)
qed

lemma sourceFolders_eq:
  assumes "Sidebar arcData = Some sidebar" "2 \<le> length (Containers sidebar)"
    "Containers sidebar ! 1 = Some mainContainer"
  shows "sourceFolders fuel arcData =
    concat (map (spaceFolders (buildItemsMap (parseArcItems (Items mainContainer)) Map.empty) fuel)
      (parseArcSpaces (ArcContainer.Spaces mainContainer)))"
  using assms by (simp add: sourceFolders_def importedItems_def importedSpaces_def)

text \<open>
  C2 (as amended). When \<open>doImport\<close> returns a session, the emitted folders have pairwise
  different ids and, for every enclosing folder \<open>p\<close>, the folders emitted under \<open>p\<close> are
  chained in emission order: the first has an empty previous-sibling reference, each
  later one refers to the folder emitted just before it under \<open>p\<close>, and following the
  references from the last one visits all of them exactly once, in reverse order, and
  ends at the folder with the empty reference. Every folder emitted at a space root has
  an empty previous-sibling reference. The emission order is the source's: the \<open>i\<close>-th
  emitted folder is named after the \<open>i\<close>-th folder item of the source in depth-first,
  source-forward order, its parent is none or an emitted folder, and the folders emitted
  under it are, in emission order, the ones of its sub-folder items in the order of its
  children ids.
\<close>

theorem doImport_sibling_chain:
  assumes "doImport rt fuel arcData zs cd = Some (Inr (res, zs', cd'))"
  shows "\<exists>new. Folders zs' = Folders (sessionBeforeItems rt arcData zs cd) @ new
           \<and> distinct (map ZenFolder.ID new)
           \<and> (\<forall>p. p \<noteq> [] \<longrightarrow>
                 chainedFrom PrevSiblingNil (siblingsUnder p new)
                 \<and> (siblingsUnder p new \<noteq> [] \<longrightarrow>
                       followPrevSiblings (length (siblingsUnder p new)) new
                         (last (siblingsUnder p new))
                       = Some (rev (map ZenFolder.ID (siblingsUnder p new)))))
           \<and> (\<forall>f \<in> set (siblingsUnder [] new). PrevSiblingInfo f = PrevSiblingNil)
           \<and> length new = length (sourceFolders fuel arcData)
           \<and> (\<forall>f \<in> set new. ZenFolder.ParentID f = []
                 \<or> ZenFolder.ParentID f \<in> ZenFolder.ID ` set new)
           \<and> (\<forall>i < length new.
                 ZenFolder.Name (new ! i) = itemTitle (fst (sourceFolders fuel arcData ! i))
                 \<and> sourcesUnder (ZenFolder.ID (new ! i)) new (sourceFolders fuel arcData)
                     = snd (sourceFolders fuel arcData ! i)
                 \<and> map ZenFolder.Name (siblingsUnder (ZenFolder.ID (new ! i)) new)
                     = map itemTitle (snd (sourceFolders fuel arcData ! i)))"
proof -
  from assms obtain sidebar mainContainer profiles uuids k st' where
    sb: "Sidebar arcData = Some sidebar"
    and len: "2 \<le> length (Containers sidebar)"
    and mc: "Containers sidebar ! 1 = Some mainContainer"
    and al: "allocateProfiles rt (parseArcSpaces (ArcContainer.Spaces mainContainer)) cd = (profiles, cd')"
    and ci: "createItems rt fuel (buildItemsMap (parseArcItems (Items mainContainer)) Map.empty) uuids cd'
       (parseArcSpaces (ArcContainer.Spaces mainContainer))
       ((spacesProcessed rt profiles (parseArcSpaces (ArcContainer.Spaces mainContainer)) zs)
          \<lparr>uuidCount := k\<rparr>) = Some (ItemsImported res, st')"
    and zs': "zs' = zenSession st'"
    by (rule doImport_InrE)
  let ?st0 = "(spacesProcessed rt profiles (parseArcSpaces (ArcContainer.Spaces mainContainer)) zs)
          \<lparr>uuidCount := k\<rparr>"
  let ?old = "Folders (zenSession ?st0)"
  let ?n = "length ?old"
  let ?src = "sourceFolders fuel arcData"
  have before: "sessionBeforeItems rt arcData zs cd = zenSession ?st0"
    using sessionBeforeItems_eq [OF sb len mc al] by simp
  have "lastFolderByParent ?st0 = Map.empty"
    by (simp add: spacesProcessed_def processSpaces_lastFolderByParent)
  then have "chainInv (timeNow rt) ?n ?st0"
    by (auto simp: chainInv_def siblingsUnder_def lastSiblingID_def)
  then have inv: "chainInv (timeNow rt) ?n st'"
    using createItems_preserves
      [where A = "\<lambda>_ a. now a = timeNow rt" and I = "chainInv (timeNow rt) ?n", OF _ _ _ ci]
      chainInv_createFolder chainInv_createTab
    by (simp add: insertArgs_def)
  from createItems_emitted [OF ci] obtain new d where
    new: "Folders (zenSession st') = ?old @ new"
    and em: "emitted (timeNow rt) [] ?n new ?src d"
    unfolding sourceFolders_eq [OF sb len mc] by blast
  then have dr: "drop ?n (Folders (zenSession st')) = new" by simp
  from inv have ch: "\<And>p. p \<noteq> [] \<Longrightarrow> chainedFrom PrevSiblingNil (siblingsUnder p new)"
    and root: "\<forall>f \<in> set (siblingsUnder [] new). PrevSiblingInfo f = PrevSiblingNil"
    unfolding chainInv_def dr by blast+
  from em have l: "length new = length ?src"
    and ids: "\<And>j. j < length new \<Longrightarrow> ZenFolder.ID (new ! j) = newFolderID (timeNow rt) (?n + j)"
    and nm: "\<forall>j < length new. ZenFolder.Name (new ! j) = itemTitle (fst (?src ! j))"
    and par: "\<forall>f \<in> set new. ZenFolder.ParentID f = []
                 \<or> ZenFolder.ParentID f \<in> ZenFolder.ID ` set new"
    and su: "\<And>j. j < length new \<Longrightarrow> sourcesUnder (ZenFolder.ID (new ! j)) new ?src = snd (?src ! j)"
    unfolding emitted_def by blast+
  from ids have d: "distinct (map ZenFolder.ID new)"
    by (rule ids_distinct)
  have fol: "followPrevSiblings (length (siblingsUnder p new)) new (last (siblingsUnder p new))
                       = Some (rev (map ZenFolder.ID (siblingsUnder p new)))"
    if "p \<noteq> []" "siblingsUnder p new \<noteq> []" for p
    using followPrevSiblings_chain [OF d _ ch [OF that(1)] that(2)]
    by (simp add: siblingsUnder_def)
  have src: "ZenFolder.Name (new ! i) = itemTitle (fst (?src ! i))
                 \<and> sourcesUnder (ZenFolder.ID (new ! i)) new ?src = snd (?src ! i)
                 \<and> map ZenFolder.Name (siblingsUnder (ZenFolder.ID (new ! i)) new)
                     = map itemTitle (snd (?src ! i))" if "i < length new" for i
    using that nm su [OF that] siblingsUnder_names [OF l nm, of "ZenFolder.ID (new ! i)"]
    by simp
  show ?thesis
    using new d ch fol root l par src unfolding before zs' by blast
qed

section \<open>The examples, evaluated\<close>

lemmas example_defs =
  exampleArcData_def exampleSpace_def exampleFolder_def exampleTab_def customProfile_def
  exampleRuntime_def emptySession_def emptyRegistry_def

lemmas doImport_defs =
  doImport_def parseArcSpaces_def parseArcItems_def allocateProfiles_def collectUniqueProfiles_def
  getProfileName_def spaceIcon_def containerColors_def rangeKeys_def calculateNextContainerID_def
  int64_wrap_def HasValidUserContextID_def GetUserContextID_def spacesProcessed_def processSpace_def
  resolveSpaceName_def profileContainerID_def newUUID_def collectAllURLs_def isArcContainer_def
  insertArgs_def getRootItemsForSpace_def createFolder_def createTab_def anchorTab_def newFolder_def
  newGroup_def newTab_def prevSiblingInfo_def itemContainerID_def itemTitle_def itemURL_def
  newFolderID_def Sprintf_d_def lookupString_def digits.simps digit_def maxUint32_def Let_def

lemma nestedExample_run:
  "\<exists>res zs' cd'.
     doImport exampleRuntime (Suc (Suc (Suc (Suc 0)))) nestedExample emptySession emptyRegistry
       = Some (Inr (res, zs', cd'))
     \<and> map ZenFolder.Name (Folders zs') = [''A'', ''C'', ''D'', ''B'']
     \<and> map ZenFolder.ID (Folders zs') = [''1700-0'', ''1700-1'', ''1700-2'', ''1700-3'']
     \<and> map ZenFolder.ParentID (Folders zs') = [[], ''1700-0'', ''1700-0'', []]
     \<and> map PrevSiblingInfo (Folders zs')
          = [PrevSiblingNil, PrevSiblingNil, PrevSiblingRef ''group'' ''1700-1'', PrevSiblingNil]"
  by (simp add: nestedExample_def example_defs doImport_defs)

lemma nestedExample_before:
  "Folders (sessionBeforeItems exampleRuntime nestedExample emptySession emptyRegistry) = []"
  by (simp add: sessionBeforeItems_def nestedExample_def example_defs doImport_defs)

text \<open>
  C2 as stated fails at the space root: of the two root folders \<open>A\<close> and \<open>B\<close> of the
  example, \<open>B\<close>, emitted after \<open>A\<close> under the same parent, has an empty reference too.
\<close>

theorem doImport_root_siblings_counterexample:
  "map_option (map ZenFolder.Name \<circ> Folders)
       (importedSession (doImport exampleRuntime (Suc (Suc (Suc (Suc 0)))) nestedExample
          emptySession emptyRegistry))
     = Some [''A'', ''C'', ''D'', ''B'']
   \<and> map_option (map ZenFolder.ParentID \<circ> Folders)
       (importedSession (doImport exampleRuntime (Suc (Suc (Suc (Suc 0)))) nestedExample
          emptySession emptyRegistry))
     = Some [[], ''1700-0'', ''1700-0'', []]
   \<and> map_option (map PrevSiblingInfo \<circ> Folders)
       (importedSession (doImport exampleRuntime (Suc (Suc (Suc (Suc 0)))) nestedExample
          emptySession emptyRegistry))
     = Some [PrevSiblingNil, PrevSiblingNil, PrevSiblingRef ''group'' ''1700-1'', PrevSiblingNil]"
  using nestedExample_run by (auto simp: importedSession_def)

lemma nestedExample_sources:
  "map (ArcItem.ID \<circ> fst) (sourceFolders (Suc (Suc (Suc (Suc 0)))) nestedExample)
     = [''A'', ''C'', ''D'', ''B'']
   \<and> map (map ArcItem.ID \<circ> snd) (sourceFolders (Suc (Suc (Suc (Suc 0)))) nestedExample)
     = [[''C'', ''D''], [], [], []]
   \<and> map (map itemTitle \<circ> snd) (sourceFolders (Suc (Suc (Suc (Suc 0)))) nestedExample)
     = [[''C'', ''D''], [], [], []]"
  by (simp add: sourceFolders_def importedItems_def importedSpaces_def spaceFolders_def
      nestedExample_def example_defs doImport_defs)

theorem doImport_sibling_chain_witness:
  "\<exists>zs'. importedSession (doImport exampleRuntime (Suc (Suc (Suc (Suc 0)))) nestedExample
            emptySession emptyRegistry) = Some zs'
     \<and> map ZenFolder.ID (siblingsUnder ''1700-0'' (Folders zs')) = [''1700-1'', ''1700-2'']
     \<and> chainedFrom PrevSiblingNil (siblingsUnder ''1700-0'' (Folders zs'))
     \<and> followPrevSiblings (length (siblingsUnder ''1700-0'' (Folders zs'))) (Folders zs')
           (last (siblingsUnder ''1700-0'' (Folders zs')))
          = Some [''1700-2'', ''1700-1'']
     \<and> map (ArcItem.ID \<circ> fst) (sourceFolders (Suc (Suc (Suc (Suc 0)))) nestedExample)
          = [''A'', ''C'', ''D'', ''B'']
     \<and> map (map ArcItem.ID \<circ> snd) (sourceFolders (Suc (Suc (Suc (Suc 0)))) nestedExample)
          = [[''C'', ''D''], [], [], []]
     \<and> map ZenFolder.Name (Folders zs') = [''A'', ''C'', ''D'', ''B'']
     \<and> map ZenFolder.Name (siblingsUnder ''1700-0'' (Folders zs')) = [''C'', ''D'']"
proof -
  let ?src = "sourceFolders (Suc (Suc (Suc (Suc 0)))) nestedExample"
  from nestedExample_run obtain res zs' cd' where
    run: "doImport exampleRuntime (Suc (Suc (Suc (Suc 0)))) nestedExample emptySession emptyRegistry
       = Some (Inr (res, zs', cd'))"
    and names: "map ZenFolder.Name (Folders zs') = [''A'', ''C'', ''D'', ''B'']"
    and ids: "map ZenFolder.ID (Folders zs') = [''1700-0'', ''1700-1'', ''1700-2'', ''1700-3'']"
    and parents: "map ZenFolder.ParentID (Folders zs') = [[], ''1700-0'', ''1700-0'', []]"
    by (elim exE conjE) (rule that)
  from ids parents obtain f0 f1 f2 f3 where fs: "Folders zs' = [f0, f1, f2, f3]"
    and f: "ZenFolder.ID f0 = ''1700-0''" "ZenFolder.ID f1 = ''1700-1''" "ZenFolder.ID f2 = ''1700-2''"
      "ZenFolder.ParentID f0 = []" "ZenFolder.ParentID f1 = ''1700-0''"
      "ZenFolder.ParentID f2 = ''1700-0''" "ZenFolder.ParentID f3 = []"
    by (auto simp: map_eq_Cons_conv)
  have sib: "siblingsUnder ''1700-0'' (Folders zs') = [f1, f2]"
    by (simp add: siblingsUnder_def fs f)
  note s1 = nestedExample_sources [THEN conjunct1]
    and s2 = nestedExample_sources [THEN conjunct2, THEN conjunct1]
    and s3 = nestedExample_sources [THEN conjunct2, THEN conjunct2]
  from s3 have s0: "map itemTitle (snd (?src ! 0)) = [''C'', ''D'']"
    by (auto simp: map_eq_Cons_conv)
  from doImport_sibling_chain [OF run] obtain new where
    new: "Folders zs' = Folders (sessionBeforeItems exampleRuntime nestedExample emptySession
            emptyRegistry) @ new"
    and ch: "\<And>p. p \<noteq> [] \<Longrightarrow> chainedFrom PrevSiblingNil (siblingsUnder p new)
                 \<and> (siblingsUnder p new \<noteq> [] \<longrightarrow>
                       followPrevSiblings (length (siblingsUnder p new)) new
                         (last (siblingsUnder p new))
                       = Some (rev (map ZenFolder.ID (siblingsUnder p new))))"
    and so: "\<And>i. i < length new \<Longrightarrow>
                 map ZenFolder.Name (siblingsUnder (ZenFolder.ID (new ! i)) new)
                     = map itemTitle (snd (?src ! i))"
    by blast
  from new have n: "new = Folders zs'"
    by (simp add: nestedExample_before)
  let ?S = "siblingsUnder ''1700-0'' (Folders zs')"
  from ch [of "''1700-0''"] have c: "chainedFrom PrevSiblingNil ?S"
    and fo: "?S \<noteq> [] \<Longrightarrow>
      followPrevSiblings (length ?S) (Folders zs') (last ?S) = Some (rev (map ZenFolder.ID ?S))"
    unfolding n by simp_all
  have ne: "?S \<noteq> []" and r: "rev (map ZenFolder.ID ?S) = [''1700-2'', ''1700-1'']"
    and m: "map ZenFolder.ID ?S = [''1700-1'', ''1700-2'']"
    by (simp_all add: sib f)
  have i: "importedSession (doImport exampleRuntime (Suc (Suc (Suc (Suc 0)))) nestedExample
            emptySession emptyRegistry) = Some zs'"
    using run by (simp add: importedSession_def)
  from fo [OF ne] have fo': "followPrevSiblings (length ?S) (Folders zs') (last ?S)
      = Some [''1700-2'', ''1700-1'']"
    unfolding r .
  have "map ZenFolder.Name (siblingsUnder (ZenFolder.ID (Folders zs' ! 0)) (Folders zs'))
      = map itemTitle (snd (?src ! 0))"
    using so [of 0] unfolding n by (simp add: fs)
  then have under: "map ZenFolder.Name ?S = [''C'', ''D'']"
    unfolding s0 by (simp add: fs f)
  show ?thesis
    by (intro exI conjI) (rule i m c fo' s1 s2 names under)+
qed

theorem doImport_anchor_invariant_witness:
  "\<exists>zs'. importedSession (doImport exampleRuntime (Suc (Suc (Suc (Suc 0)))) nestedExample
            emptySession emptyRegistry) = Some zs'
     \<and> length (Folders zs') = 4
     \<and> list_all (anchoredFolder zs') (Folders zs')"
proof -
  from nestedExample_run obtain res zs' cd' where
    run: "doImport exampleRuntime (Suc (Suc (Suc (Suc 0)))) nestedExample emptySession emptyRegistry
       = Some (Inr (res, zs', cd'))"
    and ids: "map ZenFolder.ID (Folders zs') = [''1700-0'', ''1700-1'', ''1700-2'', ''1700-3'']"
    by (elim exE conjE) (rule that)
  from ids have "length (map ZenFolder.ID (Folders zs')) = 4" by simp
  then have len: "length (Folders zs') = 4" by simp
  from doImport_anchor_invariant [OF run] show ?thesis
    using run len by (auto simp: importedSession_def nestedExample_before list_all_iff)
qed

section \<open>The main container\<close>

text \<open>
  C10. If the source data has no sidebar, or a sidebar with fewer than two containers,
  \<open>doImport\<close> returns the error "no main container" and \<open>Import\<close> returns it with the
  files untouched; so data with exactly one container is rejected. With two containers
  or more, the run depends on the container at index 1 only.
\<close>

theorem doImport_requires_main_container:
  "((Sidebar arcData = None
      \<or> (\<exists>sidebar. Sidebar arcData = Some sidebar \<and> length (Containers sidebar) < 2))
     \<longrightarrow> doImport rt fuel arcData zs cd = Some (Inl NoMainContainer)
         \<and> Import rt fuel dryRun containers_ok session_ok arcData disk
             = Some (Inl NoMainContainer, disk))
   \<and> (\<forall>sidebar c0 c1 rest.
         Sidebar arcData = Some sidebar \<and> Containers sidebar = c0 # c1 # rest
         \<longrightarrow> doImport rt fuel arcData zs cd
             = doImport rt fuel \<lparr> Sidebar = Some \<lparr> Containers = [None, c1] \<rparr> \<rparr> zs cd)"
proof (intro conjI impI allI)
  assume a: "Sidebar arcData = None
      \<or> (\<exists>sidebar. Sidebar arcData = Some sidebar \<and> length (Containers sidebar) < 2)"
  then show d: "doImport rt fuel arcData zs cd = Some (Inl NoMainContainer)"
    by (auto simp: doImport_def)
  have "doImport rt fuel arcData (readZenSession disk) (readContainers disk)
      = Some (Inl NoMainContainer)"
    using a by (auto simp: doImport_def)
  then show "Import rt fuel dryRun containers_ok session_ok arcData disk
             = Some (Inl NoMainContainer, disk)"
    by (simp add: Import_def)
next
  fix sidebar c0 c1 rest
  assume "Sidebar arcData = Some sidebar \<and> Containers sidebar = c0 # c1 # rest"
  then show "doImport rt fuel arcData zs cd
             = doImport rt fuel \<lparr> Sidebar = Some \<lparr> Containers = [None, c1] \<rparr> \<rparr> zs cd"
    by (simp add: doImport_def)
qed

theorem doImport_requires_main_container_witness:
  "doImport exampleRuntime 0
      \<lparr> Sidebar = Some \<lparr> Containers = [Some \<lparr> ArcContainer.Spaces = [], Items = [] \<rparr>] \<rparr> \<rparr>
      emptySession emptyRegistry = Some (Inl NoMainContainer)
   \<and> Import exampleRuntime 0 False True True
      \<lparr> Sidebar = Some \<lparr> Containers = [Some \<lparr> ArcContainer.Spaces = [], Items = [] \<rparr>] \<rparr> \<rparr>
      \<lparr> containersFile = Some emptyRegistry, sessionFile = Some emptySession \<rparr>
     = Some (Inl NoMainContainer,
             \<lparr> containersFile = Some emptyRegistry, sessionFile = Some emptySession \<rparr>)"
  using doImport_requires_main_container
    [of "\<lparr> Sidebar = Some \<lparr> Containers = [Some \<lparr> ArcContainer.Spaces = [], Items = [] \<rparr>] \<rparr> \<rparr>"
      exampleRuntime 0 emptySession emptyRegistry False True True
      "\<lparr> containersFile = Some emptyRegistry, sessionFile = Some emptySession \<rparr>"]
  by simp

lemma sharedProfileExample_run:
  "\<exists>res zs' cd'.
     doImport exampleRuntime (Suc (Suc 0)) sharedProfileExample emptySession emptyRegistry
       = Some (Inr (res, zs', cd'))
     \<and> map ZenSpace.Name (Spaces zs') = [''Foo'', ''Bar'']
     \<and> map UUID (Spaces zs') = [''{u0}'', ''{u1}'']
     \<and> map ContainerTabID (Spaces zs') = [1, 1]
     \<and> map ZenWorkspace (Tabs zs') = [''{u0}'', ''{u1}'']
     \<and> map ZenTab.UserContextID (Tabs zs') = [1, 0]
     \<and> map ZenDefaultUserContextID (Tabs zs') = [JsonInt 1, JsonInt 0]
     \<and> map ContainerIdentity.Name (Identities cd') = [''Foo'']
     \<and> map ContainerIdentity.UserContextID (Identities cd') = [Some 1]"
  by (simp add: sharedProfileExample_def example_defs doImport_defs)

section \<open>Merging into an existing workspace\<close>

text \<open>
  C3, evaluated on two spaces "Foo" and "Bar" that share the custom profile \<open>P1\<close>: the
  profile is mapped to container 1 and both workspaces get container 1, but the tab of
  "Bar" is stored with container id 0.
\<close>

theorem doImport_shared_profile_tab_container:
  "map (ContainerID \<circ> snd)
      (fst (allocateProfiles exampleRuntime
         [exampleSpace ''s1'' ''Foo'' [''t1''] (customProfile ''P1''),
          exampleSpace ''s2'' ''Bar'' [''t2''] (customProfile ''P1'')] emptyRegistry)) = [1]
   \<and> map_option (map ZenSpace.Name \<circ> Spaces)
        (importedSession (doImport exampleRuntime (Suc (Suc 0)) sharedProfileExample
           emptySession emptyRegistry)) = Some [''Foo'', ''Bar'']
   \<and> map_option (map UUID \<circ> Spaces)
        (importedSession (doImport exampleRuntime (Suc (Suc 0)) sharedProfileExample
           emptySession emptyRegistry)) = Some [''{u0}'', ''{u1}'']
   \<and> map_option (map ContainerTabID \<circ> Spaces)
        (importedSession (doImport exampleRuntime (Suc (Suc 0)) sharedProfileExample
           emptySession emptyRegistry)) = Some [1, 1]
   \<and> map_option (map ZenWorkspace \<circ> Tabs)
        (importedSession (doImport exampleRuntime (Suc (Suc 0)) sharedProfileExample
           emptySession emptyRegistry)) = Some [''{u0}'', ''{u1}'']
   \<and> map_option (map ZenTab.UserContextID \<circ> Tabs)
        (importedSession (doImport exampleRuntime (Suc (Suc 0)) sharedProfileExample
           emptySession emptyRegistry)) = Some [1, 0]
   \<and> map_option (map ZenDefaultUserContextID \<circ> Tabs)
        (importedSession (doImport exampleRuntime (Suc (Suc 0)) sharedProfileExample
           emptySession emptyRegistry)) = Some [JsonInt 1, JsonInt 0]"
proof -
  have p: "map (ContainerID \<circ> snd)
      (fst (allocateProfiles exampleRuntime
         [exampleSpace ''s1'' ''Foo'' [''t1''] (customProfile ''P1''),
          exampleSpace ''s2'' ''Bar'' [''t2''] (customProfile ''P1'')] emptyRegistry)) = [1]"
    by (simp add: example_defs doImport_defs)
  from sharedProfileExample_run obtain res zs' cd' where
    "doImport exampleRuntime (Suc (Suc 0)) sharedProfileExample emptySession emptyRegistry
       = Some (Inr (res, zs', cd'))"
    "map ZenSpace.Name (Spaces zs') = [''Foo'', ''Bar'']"
    "map UUID (Spaces zs') = [''{u0}'', ''{u1}'']"
    "map ContainerTabID (Spaces zs') = [1, 1]"
    "map ZenWorkspace (Tabs zs') = [''{u0}'', ''{u1}'']"
    "map ZenTab.UserContextID (Tabs zs') = [1, 0]"
    "map ZenDefaultUserContextID (Tabs zs') = [JsonInt 1, JsonInt 0]"
    by (elim exE conjE) (rule that)
  with p show ?thesis
    by (simp add: importedSession_def)
qed

lemma filterTabs_filter:
  "filterTabs tabs u = filter (\<lambda>t. \<not> (ZenWorkspace t = u \<and> ZenTab.Pinned t)) tabs"
  by (induction tabs) auto

lemma filterFolders_filter:
  "filterFolders folders u = filter (\<lambda>f. WorkspaceID f \<noteq> u) folders"
  by (induction folders) auto

lemma findSpaceByName_Some:
  "findSpaceByName xs n = Some s \<Longrightarrow> s \<in> set xs \<and> ZenSpace.Name s = n"
  by (induction xs) (auto split: if_splits)

lemma findSpaceByName_None:
  "(findSpaceByName xs n = None) = (n \<notin> set (map ZenSpace.Name xs))"
  by (induction xs) auto

lemma updateSpace_first:
  assumes "s \<in> set xs" "UUID s = u"
  shows "\<exists>i < length xs. UUID (xs ! i) = u \<and> (\<forall>j < i. UUID (xs ! j) \<noteq> u)
     \<and> updateSpace xs u icon c = xs[i := (xs ! i)\<lparr>ZenSpace.Icon := icon, ContainerTabID := c\<rparr>]"
  using assms
proof (induction xs)
  case Nil
  then show ?case by simp
next
  case (Cons x xs)
  show ?case
  proof (cases "UUID x = u")
    case True
    then have "0 < length (x # xs) \<and> UUID ((x # xs) ! 0) = u \<and> (\<forall>j < 0. UUID ((x # xs) ! j) \<noteq> u)
     \<and> updateSpace (x # xs) u icon c
        = (x # xs)[0 := ((x # xs) ! 0)\<lparr>ZenSpace.Icon := icon, ContainerTabID := c\<rparr>]"
      by simp
    then show ?thesis by blast
  next
    case False
    with Cons.prems have "s \<in> set xs" by auto
    from Cons.IH [OF this Cons.prems(2)] obtain i where i: "i < length xs" "UUID (xs ! i) = u"
      "\<forall>j < i. UUID (xs ! j) \<noteq> u"
      "updateSpace xs u icon c = xs[i := (xs ! i)\<lparr>ZenSpace.Icon := icon, ContainerTabID := c\<rparr>]"
      by blast
    have "Suc i < length (x # xs) \<and> UUID ((x # xs) ! Suc i) = u
       \<and> (\<forall>j < Suc i. UUID ((x # xs) ! j) \<noteq> u)
       \<and> updateSpace (x # xs) u icon c
        = (x # xs)[Suc i := ((x # xs) ! Suc i)\<lparr>ZenSpace.Icon := icon, ContainerTabID := c\<rparr>]"
      using i False by (auto simp: less_Suc_eq_0_disj)
    then show ?thesis by blast
  qed
qed

text \<open>
  C6. When the resolved name of a processed space matches a workspace of the session,
  the workspace ids of the session being pairwise different as the durable ids of the
  data model are, the step reuses that workspace's id, draws no new id, removes exactly
  the tabs that are owned by that id and pinned and exactly the folders owned by that
  id, leaves the groups alone, appends no workspace, and updates the icon and the
  container id of the matched workspace in place, all other entries staying as they are.
\<close>

theorem processSpace_merge:
  assumes found: "findSpaceByName (Spaces (zenSession st)) (resolveSpaceName sp) = Some existing"
    and ids: "distinct (map UUID (Spaces (zenSession st)))"
  shows "ZenSpace.Name existing = resolveSpaceName sp
    \<and> spaceUUIDMap (processSpace rt profiles sp st) (ArcSpace.ID sp) = Some (UUID existing)
    \<and> Tabs (zenSession (processSpace rt profiles sp st))
        = filter (\<lambda>t. \<not> (ZenWorkspace t = UUID existing \<and> ZenTab.Pinned t))
            (Tabs (zenSession st))
    \<and> Folders (zenSession (processSpace rt profiles sp st))
        = filter (\<lambda>f. WorkspaceID f \<noteq> UUID existing) (Folders (zenSession st))
    \<and> Groups (zenSession (processSpace rt profiles sp st)) = Groups (zenSession st)
    \<and> uuidCount (processSpace rt profiles sp st) = uuidCount st
    \<and> length (Spaces (zenSession (processSpace rt profiles sp st)))
        = length (Spaces (zenSession st))
    \<and> (\<exists>i < length (Spaces (zenSession st)).
          Spaces (zenSession st) ! i = existing
          \<and> Spaces (zenSession (processSpace rt profiles sp st))
              = (Spaces (zenSession st))
                  [i := existing
                          \<lparr> ZenSpace.Icon := MapArcIconToSvg rt (spaceIcon sp),
                            ContainerTabID := profileContainerID profiles sp \<rparr>])"
proof -
  let ?xs = "Spaces (zenSession st)"
  from found have ex: "existing \<in> set ?xs" and nm: "ZenSpace.Name existing = resolveSpaceName sp"
    by (simp_all add: findSpaceByName_Some)
  from updateSpace_first [OF ex refl, of "MapArcIconToSvg rt (spaceIcon sp)"
      "profileContainerID profiles sp"]
  obtain i where i: "i < length ?xs" "UUID (?xs ! i) = UUID existing"
    "updateSpace ?xs (UUID existing) (MapArcIconToSvg rt (spaceIcon sp))
        (profileContainerID profiles sp)
       = ?xs[i := (?xs ! i)\<lparr> ZenSpace.Icon := MapArcIconToSvg rt (spaceIcon sp),
                            ContainerTabID := profileContainerID profiles sp \<rparr>]"
    by blast
  have d: "?xs ! i = existing"
  proof -
    from ex obtain k where k: "k < length ?xs" "?xs ! k = existing"
      by (auto simp: in_set_conv_nth)
    with i(1,2) ids have "k = i"
      by (metis distinct_conv_nth length_map nth_map)
    with k show ?thesis by simp
  qed
  have sp: "Spaces (zenSession (processSpace rt profiles sp st))
       = ?xs[i := existing\<lparr> ZenSpace.Icon := MapArcIconToSvg rt (spaceIcon sp),
                            ContainerTabID := profileContainerID profiles sp \<rparr>]"
    using found i(3) d by (simp add: processSpace_def Let_def)
  have rest: "spaceUUIDMap (processSpace rt profiles sp st) (ArcSpace.ID sp) = Some (UUID existing)"
    "Tabs (zenSession (processSpace rt profiles sp st))
        = filter (\<lambda>t. \<not> (ZenWorkspace t = UUID existing \<and> ZenTab.Pinned t))
            (Tabs (zenSession st))"
    "Folders (zenSession (processSpace rt profiles sp st))
        = filter (\<lambda>f. WorkspaceID f \<noteq> UUID existing) (Folders (zenSession st))"
    "Groups (zenSession (processSpace rt profiles sp st)) = Groups (zenSession st)"
    "uuidCount (processSpace rt profiles sp st) = uuidCount st"
    using found
    by (simp_all add: processSpace_def Let_def filterTabs_filter filterFolders_filter)
  have len: "length (Spaces (zenSession (processSpace rt profiles sp st))) = length ?xs"
    by (simp add: sp)
  from i(1) d sp have upd: "\<exists>i < length ?xs. ?xs ! i = existing
          \<and> Spaces (zenSession (processSpace rt profiles sp st))
              = ?xs[i := existing\<lparr> ZenSpace.Icon := MapArcIconToSvg rt (spaceIcon sp),
                            ContainerTabID := profileContainerID profiles sp \<rparr>]"
    by blast
  show ?thesis
    by (intro conjI) (rule nm rest len upd)+
qed

lemma updateSpace_names:
  "map ZenSpace.Name (updateSpace xs u icon c) = map ZenSpace.Name xs"
  by (induction xs) auto

lemma processSpace_names:
  "map ZenSpace.Name (Spaces (zenSession (processSpace rt profiles sp st))) =
     (if resolveSpaceName sp \<in> set (map ZenSpace.Name (Spaces (zenSession st)))
      then map ZenSpace.Name (Spaces (zenSession st))
      else map ZenSpace.Name (Spaces (zenSession st)) @ [resolveSpaceName sp])"
proof (cases "findSpaceByName (Spaces (zenSession st)) (resolveSpaceName sp)")
  case None
  then show ?thesis
    using findSpaceByName_None [of "Spaces (zenSession st)" "resolveSpaceName sp"]
    by (simp add: processSpace_def Let_def)
next
  case (Some existing)
  then have "resolveSpaceName sp \<in> set (map ZenSpace.Name (Spaces (zenSession st)))"
    using findSpaceByName_None [of "Spaces (zenSession st)" "resolveSpaceName sp"] by simp
  with Some show ?thesis
    by (simp add: processSpace_def Let_def updateSpace_names)
qed

lemma processSpaces_names:
  "map ZenSpace.Name (Spaces (zenSession (processSpaces rt profiles sps st))) =
     addNames (map ZenSpace.Name (Spaces (zenSession st))) sps"
  by (induction sps arbitrary: st) (simp_all add: processSpace_names)

lemma addNames_idem:
  "set (map resolveSpaceName sps) \<subseteq> set names \<Longrightarrow> addNames names sps = names"
  by (induction sps arbitrary: names) simp_all

lemma addNames_set:
  "set (addNames names sps) = set names \<union> set (map resolveSpaceName sps)"
  by (induction sps arbitrary: names) auto

lemma addNames_count:
  "count_list (addNames names sps) n =
     (if n \<in> set names then count_list names n
      else if n \<in> set (map resolveSpaceName sps) then 1 else 0)"
proof (induction sps arbitrary: names)
  case Nil
  then show ?case by (simp add: count_list_0_iff)
next
  case (Cons sp sps)
  show ?case
  proof (cases "resolveSpaceName sp \<in> set names")
    case True
    then show ?thesis using Cons.IH [of names] by auto
  next
    case False
    then show ?thesis
      using Cons.IH [of "names @ [resolveSpaceName sp]"]
      by (auto simp: count_list_0_iff)
  qed
qed

lemma createItems_Spaces:
  assumes "createItems rt fuel im uuids cd spaces st = Some (n, st')"
  shows "Spaces (zenSession st') = Spaces (zenSession st)"
proof -
  have "Spaces (zenSession st') = Spaces (zenSession st)"
    using createItems_preserves
      [where A = "\<lambda>_ _. True" and I = "\<lambda>s. Spaces (zenSession s) = Spaces (zenSession st)",
        OF _ _ _ assms]
    by (simp add: createFolder_session createTab_session)
  then show ?thesis .
qed

lemma doImport_names:
  assumes "doImport rt fuel arcData zs cd = Some (Inr (res, zs', cd'))"
  shows "map ZenSpace.Name (Spaces zs')
     = addNames (map ZenSpace.Name (Spaces zs)) (importedSpaces arcData)"
proof -
  from assms obtain sidebar mainContainer profiles uuids k st' where
    sb: "Sidebar arcData = Some sidebar"
    and len: "2 \<le> length (Containers sidebar)"
    and mc: "Containers sidebar ! 1 = Some mainContainer"
    and ci: "createItems rt fuel (buildItemsMap (parseArcItems (Items mainContainer)) Map.empty) uuids cd'
       (parseArcSpaces (ArcContainer.Spaces mainContainer))
       ((spacesProcessed rt profiles (parseArcSpaces (ArcContainer.Spaces mainContainer)) zs)
          \<lparr>uuidCount := k\<rparr>) = Some (ItemsImported res, st')"
    and zs': "zs' = zenSession st'"
    by (rule doImport_InrE)
  have "importedSpaces arcData = parseArcSpaces (ArcContainer.Spaces mainContainer)"
    using mc len by (simp add: importedSpaces_def sb)
  then show ?thesis
    using createItems_Spaces [OF ci]
    by (simp add: zs' spacesProcessed_def processSpaces_names)
qed

lemma Import_InrE:
  assumes "Import rt fuel False containers_ok session_ok arcData disk = Some (Inr res, disk')"
  obtains zs' cd' where
    "doImport rt fuel arcData (readZenSession disk) (readContainers disk) = Some (Inr (res, zs', cd'))"
    "readZenSession disk' = zs'"
  using assms
  by (auto simp: Import_def Let_def readZenSession_def split: option.splits sum.splits if_splits)

lemma addNames_append:
  "\<exists>added. addNames names sps = names @ added \<and> distinct added
     \<and> set added = set (map resolveSpaceName sps) - set names"
proof (induction sps arbitrary: names)
  case Nil
  then show ?case by simp
next
  case (Cons sp sps)
  show ?case
  proof (cases "resolveSpaceName sp \<in> set names")
    case True
    from Cons.IH [of names] obtain added where
      a: "addNames names sps = names @ added" "distinct added"
        "set added = set (map resolveSpaceName sps) - set names"
      by blast
    from a True have "addNames names (sp # sps) = names @ added \<and> distinct added
        \<and> set added = set (map resolveSpaceName (sp # sps)) - set names"
      by auto
    then show ?thesis by blast
  next
    case False
    from Cons.IH [of "names @ [resolveSpaceName sp]"] obtain added where
      a: "addNames (names @ [resolveSpaceName sp]) sps = (names @ [resolveSpaceName sp]) @ added"
        "distinct added"
        "set added = set (map resolveSpaceName sps) - set (names @ [resolveSpaceName sp])"
      by blast
    from a False have "addNames names (sp # sps) = names @ (resolveSpaceName sp # added)
        \<and> distinct (resolveSpaceName sp # added)
        \<and> set (resolveSpaceName sp # added) = set (map resolveSpaceName (sp # sps)) - set names"
      by auto
    then show ?thesis by blast
  qed
qed

text \<open>
  C7 (as amended). After two runs in a row on the same source data, the second run has
  added no workspace (the workspace names are those left by the first run). The
  workspaces are those of the original session, in place, followed by one workspace for
  each resolved space name that the original session did not hold. So a name that the
  original session held keeps the number of workspaces it had there, several if it had
  several, and every resolved space name that it held at most once names exactly one
  workspace.
\<close>

theorem importTwice_workspaces:
  assumes "importTwice rt1 rt2 fuel arcData disk0 = Some disk2"
  shows "\<exists>res1 disk1 added.
      Import rt1 fuel False True True arcData disk0 = Some (Inr res1, disk1)
      \<and> workspaceNames disk2 = workspaceNames disk1
      \<and> workspaceNames disk2 = workspaceNames disk0 @ added
      \<and> distinct added
      \<and> set added = set (map resolveSpaceName (importedSpaces arcData))
                       - set (workspaceNames disk0)
      \<and> (\<forall>n. count_list (workspaceNames disk2) n =
              (if n \<in> set (workspaceNames disk0) then count_list (workspaceNames disk0) n
               else if n \<in> set (map resolveSpaceName (importedSpaces arcData)) then 1 else 0))
      \<and> (\<forall>n \<in> set (map resolveSpaceName (importedSpaces arcData)).
            count_list (workspaceNames disk0) n \<le> 1
            \<longrightarrow> count_list (workspaceNames disk2) n = 1)"
proof -
  from assms obtain res1 disk1 res2 where
    i1: "Import rt1 fuel False True True arcData disk0 = Some (Inr res1, disk1)"
    and i2: "Import rt2 fuel False True True arcData disk1 = Some (Inr res2, disk2)"
    by (auto simp: importTwice_def split: option.splits sum.splits prod.splits)
  let ?sps = "importedSpaces arcData"
  from i1 have n1: "workspaceNames disk1 = addNames (workspaceNames disk0) ?sps"
    unfolding workspaceNames_def by (elim Import_InrE) (simp add: doImport_names)
  from i2 have n2: "workspaceNames disk2 = addNames (workspaceNames disk1) ?sps"
    unfolding workspaceNames_def by (elim Import_InrE) (simp add: doImport_names)
  have "set (map resolveSpaceName ?sps) \<subseteq> set (workspaceNames disk1)"
    unfolding n1 addNames_set by blast
  then have same: "workspaceNames disk2 = workspaceNames disk1"
    unfolding n2 by (rule addNames_idem)
  from addNames_append [of "workspaceNames disk0" ?sps] obtain added where
    added: "workspaceNames disk2 = workspaceNames disk0 @ added" "distinct added"
      "set added = set (map resolveSpaceName ?sps) - set (workspaceNames disk0)"
    unfolding same n1 by blast
  have cnt: "\<forall>n. count_list (workspaceNames disk2) n =
              (if n \<in> set (workspaceNames disk0) then count_list (workspaceNames disk0) n
               else if n \<in> set (map resolveSpaceName ?sps) then 1 else 0)"
    unfolding same n1 addNames_count by simp
  have one: "\<forall>n \<in> set (map resolveSpaceName ?sps).
            count_list (workspaceNames disk0) n \<le> 1
            \<longrightarrow> count_list (workspaceNames disk2) n = 1"
  proof (intro ballI impI)
    fix n assume n: "n \<in> set (map resolveSpaceName ?sps)"
      and le: "count_list (workspaceNames disk0) n \<le> 1"
    show "count_list (workspaceNames disk2) n = 1"
    proof (cases "n \<in> set (workspaceNames disk0)")
      case True
      then have "count_list (workspaceNames disk0) n \<noteq> 0"
        by (simp add: count_list_0_iff)
      with le True cnt show ?thesis by simp
    next
      case False
      with n cnt show ?thesis by simp
    qed
  qed
  show ?thesis
    by (intro exI [of _ res1] exI [of _ disk1] exI [of _ added] conjI)
      (rule i1 same added cnt one)+
qed

lemmas target_example_defs =
  exampleWorkspace_def exampleZenTab_def exampleZenFolder_def exampleState_def mergeExample_def
  sameNameExample_def freshDisk_def workExample_def

theorem processSpace_merge_witness:
  "findSpaceByName (Spaces (zenSession (exampleState mergeExample)))
       (resolveSpaceName (exampleSpace ''s1'' ''Work'' [] None))
     = Some (exampleWorkspace ''{w}'' ''Work'')
   \<and> distinct (map UUID (Spaces (zenSession (exampleState mergeExample))))
   \<and> map ZenSyncID
        (Tabs (zenSession (processSpace exampleRuntime []
           (exampleSpace ''s1'' ''Work'' [] None) (exampleState mergeExample))))
       = [''n1'', ''p2'']
   \<and> map ZenFolder.ID
        (Folders (zenSession (processSpace exampleRuntime []
           (exampleSpace ''s1'' ''Work'' [] None) (exampleState mergeExample))))
       = [''f2'']
   \<and> length (Spaces (zenSession (processSpace exampleRuntime []
           (exampleSpace ''s1'' ''Work'' [] None) (exampleState mergeExample)))) = 2
   \<and> map ZenSpace.Icon (Spaces (zenSession (exampleState mergeExample))) = [''old'', ''old'']
   \<and> map ZenSpace.Icon
        (Spaces (zenSession (processSpace exampleRuntime []
           (exampleSpace ''s1'' ''Work'' [] None) (exampleState mergeExample))))
       = [''old'', ''star'']"
proof -
  have h: "findSpaceByName (Spaces (zenSession (exampleState mergeExample)))
       (resolveSpaceName (exampleSpace ''s1'' ''Work'' [] None))
     = Some (exampleWorkspace ''{w}'' ''Work'')"
    by (simp add: target_example_defs example_defs resolveSpaceName_def)
  have u: "distinct (map UUID (Spaces (zenSession (exampleState mergeExample))))"
    by (simp add: target_example_defs)
  have t: "map ZenSyncID (filter (\<lambda>t. \<not> (ZenWorkspace t = UUID (exampleWorkspace ''{w}'' ''Work'')
              \<and> ZenTab.Pinned t)) (Tabs (zenSession (exampleState mergeExample))))
       = [''n1'', ''p2'']"
    and f: "map ZenFolder.ID (filter (\<lambda>f. WorkspaceID f \<noteq> UUID (exampleWorkspace ''{w}'' ''Work''))
              (Folders (zenSession (exampleState mergeExample)))) = [''f2'']"
    and l: "length (Spaces (zenSession (exampleState mergeExample))) = 2"
    by (simp_all add: target_example_defs)
  have ic: "map ZenSpace.Icon (Spaces (zenSession (exampleState mergeExample))) = [''old'', ''old'']"
    "map ZenSpace.Icon
        (Spaces (zenSession (processSpace exampleRuntime []
           (exampleSpace ''s1'' ''Work'' [] None) (exampleState mergeExample))))
       = [''old'', ''star'']"
    by (simp_all add: target_example_defs example_defs resolveSpaceName_def processSpace_def
        spaceIcon_def profileContainerID_def Let_def)
  from processSpace_merge [OF h u, of exampleRuntime "[]"] h u t f l ic show ?thesis
    by simp
qed

lemmas Import_defs =
  importTwice_def Import_def readZenSession_def readContainers_def writeContainers_def
  workspaceNames_def

lemma workExample_twice:
  "\<exists>disk2. importTwice exampleRuntime exampleRuntime 0 workExample freshDisk = Some disk2
     \<and> workspaceNames disk2 = [''Work'']"
  by (simp add: Import_defs target_example_defs example_defs doImport_defs)

theorem importTwice_workspaces_witness:
  "\<exists>disk2. importTwice exampleRuntime exampleRuntime 0 workExample freshDisk = Some disk2
     \<and> count_list (workspaceNames freshDisk) ''Work'' = 0
     \<and> count_list (workspaceNames disk2) ''Work'' = 1"
proof -
  from workExample_twice obtain disk2 where
    d: "importTwice exampleRuntime exampleRuntime 0 workExample freshDisk = Some disk2"
    by (elim exE conjE) (rule that)
  have n: "''Work'' \<in> set (map resolveSpaceName (importedSpaces workExample))"
    by (simp add: importedSpaces_def target_example_defs example_defs parseArcSpaces_def
        resolveSpaceName_def)
  have c: "count_list (workspaceNames freshDisk) ''Work'' = 0"
    by (simp add: workspaceNames_def readZenSession_def freshDisk_def)
  from importTwice_workspaces [OF d] have "\<forall>n \<in> set (map resolveSpaceName (importedSpaces workExample)).
            count_list (workspaceNames freshDisk) n \<le> 1
            \<longrightarrow> count_list (workspaceNames disk2) n = 1"
    by (elim exE conjE)
  with n c have "count_list (workspaceNames disk2) ''Work'' = 1"
    by (metis le_numeral_extra(3) zero_le_one)
  with d c show ?thesis by (intro exI conjI)
qed

text \<open>
  C7 as stated fails on a session that already holds two workspaces named "Work": after
  two runs there are still two.
\<close>

theorem importTwice_workspaces_counterexample:
  "map_option workspaceNames
      (importTwice exampleRuntime exampleRuntime 0 workExample sameNameExample)
     = Some [''Work'', ''Work'']"
  by (simp add: Import_defs target_example_defs example_defs doImport_defs)

section \<open>The Identity Allocator\<close>


































section \<open>The order of the profiles\<close>

lemma allocateContainers_rangeOrder:
  "allocateContainers (rt\<lparr>rangeOrder := ord\<rparr>) keys profiles cd n
     = allocateContainers rt keys profiles cd n"
  by (induction keys arbitrary: profiles cd n) (simp_all split: option.splits)

lemma newUUID_rangeOrder: "newUUID (rt\<lparr>rangeOrder := ord\<rparr>) k = newUUID rt k"
  by (simp add: newUUID_def)

lemma processSpace_rangeOrder:
  "processSpace (rt\<lparr>rangeOrder := ord\<rparr>) profiles sp st = processSpace rt profiles sp st"
  by (simp add: processSpace_def newUUID_rangeOrder Let_def cong: option.case_cong)

lemma processSpaces_rangeOrder:
  "processSpaces (rt\<lparr>rangeOrder := ord\<rparr>) profiles sps st = processSpaces rt profiles sps st"
  by (induction sps arbitrary: st) (simp_all add: processSpace_rangeOrder)

lemma generateUUIDs_rangeOrder:
  "generateUUIDs (rt\<lparr>rangeOrder := ord\<rparr>) items m k = generateUUIDs rt items m k"
  by (induction items arbitrary: m k) (simp_all add: newUUID_rangeOrder)

lemma anchorTab_rangeOrder: "anchorTab (rt\<lparr>rangeOrder := ord\<rparr>) a st = anchorTab rt a st"
  by (simp add: anchorTab_def newUUID_rangeOrder Let_def)

lemma newFolder_rangeOrder:
  "newFolder (rt\<lparr>rangeOrder := ord\<rparr>) a arcItem p st = newFolder rt a arcItem p st"
  by (simp add: newFolder_def newUUID_rangeOrder Let_def)

lemma newTab_rangeOrder:
  "newTab (rt\<lparr>rangeOrder := ord\<rparr>) a arcItem p st = newTab rt a arcItem p st"
  by (simp add: newTab_def Let_def)

lemma createFolder_rangeOrder:
  "createFolder (rt\<lparr>rangeOrder := ord\<rparr>) a arcItem p st = createFolder rt a arcItem p st"
  by (simp add: createFolder_def anchorTab_rangeOrder newFolder_rangeOrder Let_def)

lemma createTab_rangeOrder:
  "createTab (rt\<lparr>rangeOrder := ord\<rparr>) a arcItem p st = createTab rt a arcItem p st"
  by (simp add: createTab_def newTab_rangeOrder)

lemma insert_rangeOrder:
  "insertItemWithChildren (rt\<lparr>rangeOrder := ord\<rparr>) a fuel arcItem p st
     = insertItemWithChildren rt a fuel arcItem p st"
  "insertChildren (rt\<lparr>rangeOrder := ord\<rparr>) a fuel ids p st = insertChildren rt a fuel ids p st"
proof (induction rt a fuel arcItem p st and rt a fuel ids p st
    rule: insertItemWithChildren_insertChildren.induct)
  case (1 rt a arcItem parentFolderID st)
  then show ?case by simp
next
  case (2 rt a fuel arcItem parentFolderID st)
  then show ?case
    by (simp add: createFolder_rangeOrder createTab_rangeOrder split: prod.splits)
next
  case (3 rt a fuel parentFolderID st)
  then show ?case by simp
next
  case (4 rt a fuel childID rest parentFolderID st)
  then show ?case
    by (simp split: option.splits)
qed

lemma insertRootItems_rangeOrder:
  "insertRootItems (rt\<lparr>rangeOrder := ord\<rparr>) a fuel roots st = insertRootItems rt a fuel roots st"
  by (induction roots arbitrary: st) (simp_all add: insert_rangeOrder split: option.splits)

lemma createItems_rangeOrder:
  "createItems (rt\<lparr>rangeOrder := ord\<rparr>) fuel im uuids cd sps st
     = createItems rt fuel im uuids cd sps st"
  by (induction sps arbitrary: st)
    (simp_all add: insertRootItems_rangeOrder insertArgs_def split: option.splits)

lemma importedSpaces_main:
  "Sidebar arcData = Some sidebar \<Longrightarrow> \<not> length (Containers sidebar) < 2
     \<Longrightarrow> Containers sidebar ! 1 = Some mainContainer
     \<Longrightarrow> importedSpaces arcData = parseArcSpaces (ArcContainer.Spaces mainContainer)"
  by (simp add: importedSpaces_def)

lemma doImport_rangeOrder:
  assumes "rangeKeys ord (collectUniqueProfiles (importedSpaces arcData))
     = rangeKeys (rangeOrder rt) (collectUniqueProfiles (importedSpaces arcData))"
  shows "doImport (rt\<lparr>rangeOrder := ord\<rparr>) fuel arcData zs cd = doImport rt fuel arcData zs cd"
proof (cases "Sidebar arcData")
  case None
  then show ?thesis by (simp add: doImport_def)
next
  case (Some sidebar)
  show ?thesis
  proof (cases "length (Containers sidebar) < 2")
    case True
    with Some show ?thesis by (simp add: doImport_def)
  next
    case len: False
    show ?thesis
    proof (cases "Containers sidebar ! 1")
      case None
      with Some show ?thesis by (simp add: doImport_def)
    next
      case mc: (Some mainContainer)
      have "allocateProfiles (rt\<lparr>rangeOrder := ord\<rparr>)
                (parseArcSpaces (ArcContainer.Spaces mainContainer)) cd
          = allocateProfiles rt (parseArcSpaces (ArcContainer.Spaces mainContainer)) cd"
        using assms unfolding importedSpaces_main [OF Some len mc]
        by (simp add: allocateProfiles_def allocateContainers_rangeOrder Let_def)
      then show ?thesis
        using Some mc
        by (simp add: doImport_def spacesProcessed_def processSpaces_rangeOrder
            generateUUIDs_rangeOrder createItems_rangeOrder Let_def
            cong: option.case_cong prod.case_cong)
    qed
  qed
qed

text \<open>
  C9. The spec has the profiles taken in first-seen order; \<open>doImport\<close> allocates the
  container ids while ranging over the Go map of the profiles, whose order the language
  leaves open and the runtime varies. By \<open>doImport_rangeOrder\<close> that order is all that
  the result takes from it. On the same data, session and registry, with the same UUIDs
  and the same clock reading, a run that visits the profiles in first-seen order,
  \<open>default\<close> first, gives the workspaces "Home" and "Work" the containers 1 and 2, and a
  run that visits \<open>P1\<close> first gives them 2 and 1; the registries list the new identities
  in different orders.
\<close>

theorem doImport_range_order_divergence:
  "map_option (map ContainerTabID \<circ> Spaces)
      (importedSession (doImport exampleRuntime 0 twoProfilesExample emptySession emptyRegistry))
     = Some [1, 2]
   \<and> map_option (map ContainerIdentity.Name \<circ> Identities)
      (importedRegistry (doImport exampleRuntime 0 twoProfilesExample emptySession emptyRegistry))
     = Some [''Home'', ''Work'']
   \<and> map_option (map ContainerTabID \<circ> Spaces)
      (importedSession (doImport (exampleRuntime\<lparr>rangeOrder := [''P1'']\<rparr>) 0
         twoProfilesExample emptySession emptyRegistry))
     = Some [2, 1]
   \<and> map_option (map ContainerIdentity.Name \<circ> Identities)
      (importedRegistry (doImport (exampleRuntime\<lparr>rangeOrder := [''P1'']\<rparr>) 0
         twoProfilesExample emptySession emptyRegistry))
     = Some [''Work'', ''Home'']"
  by (simp add: twoProfilesExample_def importedSession_def importedRegistry_def example_defs
      doImport_defs)

end
